theory Spec2Isabelle
  imports Main "HOL-Library.Sublist" "HOL-Library.Char_ord" "HOL-Library.List_Lexorder"
    "HOL-Library.Product_Lexorder"
begin

section \<open>Strings\<close>

text \<open>
  A JavaScript string is a sequence of UTF-16 code units. The model uses \<^typ>\<open>string\<close>;
  a \<^typ>\<open>char\<close> stands for the code unit with the same number, so the model covers
  the code units U+0000 to U+00FF. \<open>length\<close> is then JavaScript's \<open>.length\<close>.
\<close>

definition code_unit :: "char \<Rightarrow> nat" where
  "code_unit c = of_char c"

text \<open>The character classes of the regular expressions in \<open>generateSlug\<close>.\<close>

definition is_az :: "char \<Rightarrow> bool" where
  "is_az c = (97 \<le> code_unit c \<and> code_unit c \<le> 122)"

definition is_digit :: "char \<Rightarrow> bool" where
  "is_digit c = (48 \<le> code_unit c \<and> code_unit c \<le> 57)"

definition is_hyphen :: "char \<Rightarrow> bool" where
  "is_hyphen c = (c = CHR ''-'')"

text \<open>
  \<open>\s\<close> and \<open>trim\<close> use the same set: tab, line feed, vertical tab, form feed,
  carriage return, space and the no-break space U+00A0 (the others lie above U+00FF).
\<close>

definition is_space :: "char \<Rightarrow> bool" where
  "is_space c = (code_unit c \<in> {9, 10, 11, 12, 13, 32, 160})"

text \<open>
  \<open>String.prototype.toLowerCase\<close> on the modelled range: A to Z, and the capital
  letters U+00C0 to U+00DE without the multiplication sign U+00D7, move up by 32.
\<close>

definition lower_char :: "char \<Rightarrow> char" where
  "lower_char c =
     (let n = code_unit c in
      if (65 \<le> n \<and> n \<le> 90) \<or> (192 \<le> n \<and> n \<le> 222 \<and> n \<noteq> 215)
      then char_of (n + 32) else c)"

definition toLowerCase :: "string \<Rightarrow> string" where
  "toLowerCase s = map lower_char s"

definition trim :: "string \<Rightarrow> string" where
  "trim s = rev (dropWhile is_space (rev (dropWhile is_space s)))"

text \<open>\<open>.replace(/[^a-z0-9\s-]/g, '')\<close>\<close>

definition remove_special :: "string \<Rightarrow> string" where
  "remove_special s = filter (\<lambda>c. is_az c \<or> is_digit c \<or> is_space c \<or> is_hyphen c) s"

text \<open>
  \<open>.replace(/\s+/g, '-')\<close> and \<open>.replace(/-+/g, '-')\<close>: every maximal run of
  characters of the class becomes one hyphen.
\<close>

function replace_runs :: "(char \<Rightarrow> bool) \<Rightarrow> string \<Rightarrow> string" where
  "replace_runs P [] = []"
| "replace_runs P (c # cs) =
     (if P c then CHR ''-'' # replace_runs P (dropWhile P cs) else c # replace_runs P cs)"
  by pat_completeness auto
termination
  by (relation "measure (\<lambda>(P, s). length s)") (auto simp: le_imp_less_Suc length_dropWhile_le)

text \<open>
  \<open>.replace(/^-|-$/g, '')\<close>: a hyphen at index 0 is removed, and then a hyphen that is
  the last character of what is left.
\<close>

definition strip_ends :: "string \<Rightarrow> string" where
  "strip_ends s =
     (let s' = (case s of [] \<Rightarrow> [] | c # cs \<Rightarrow> if is_hyphen c then cs else s)
      in if s' \<noteq> [] \<and> is_hyphen (last s') then butlast s' else s')"

definition generateSlug :: "string \<Rightarrow> string" where
  "generateSlug title =
     strip_ends (replace_runs is_hyphen (replace_runs is_space
       (remove_special (trim (toLowerCase title)))))"

text \<open>The number-to-string conversion of a template literal, for a counter.\<close>

definition digit_char :: "nat \<Rightarrow> char" where
  "digit_char d = char_of (48 + d)"

function decimal :: "nat \<Rightarrow> string" where
  "decimal n = (if n < 10 then [digit_char n] else decimal (n div 10) @ [digit_char (n mod 10)])"
  by pat_completeness auto
termination
  by (relation "measure id") auto

declare decimal.simps [simp del]

text \<open>The shape properties of a slug, as predicates on strings.\<close>

definition slug_char :: "char \<Rightarrow> bool" where
  "slug_char c = (is_az c \<or> is_digit c \<or> is_hyphen c)"

fun no_adjacent :: "string \<Rightarrow> bool" where
  "no_adjacent (a # b # cs) = (\<not> (is_hyphen a \<and> is_hyphen b) \<and> no_adjacent (b # cs))"
| "no_adjacent _ = True"

section \<open>Content documents\<close>

text \<open>
  A stored document and the data object handed to \<open>insert\<close> or \<open>update\<close> have the
  same shape: every path may be absent (\<open>None\<close>). Times are milliseconds since the
  epoch. The hooks dereference \<open>this.timestamps\<close>, so the model covers documents that
  carry the \<open>timestamps\<close> sub-document. Paths that no modelled operation reads
  (excerpt, visibility, tags, metadata, metrics and the like) are left out.
\<close>

datatype content_type = Page | Blog | Service | Product | Custom

datatype content_status = Draft | Published | Archived | Scheduled

record author =
  author_id :: string
  author_name :: string
  author_email :: string

record timestamps =
  created_at :: "int option"
  updated_at :: "int option"
  published_at :: "int option"

record content =
  ID :: "string option"
  ctype :: "content_type option"
  title :: "string option"
  slug :: "string option"
  body :: "string option"
  status :: "content_status option"
  author :: "author option"
  timestamps :: timestamps

text \<open>The errors the modelled operations throw.\<close>

datatype error =
    TitleRequired
  | ValidationError "string list"
  | DuplicateKey string
  | DocumentNotFound
  | SettingNotFound
  | InvalidValue
  | PatternSyntaxError
  | TypeError
  | CastError

text \<open>JavaScript truthiness of a string-valued path: absent and \<open>''\<close> are falsy.\<close>

definition truthy :: "string option \<Rightarrow> bool" where
  "truthy v = (case v of None \<Rightarrow> False | Some s \<Rightarrow> s \<noteq> [])"

subsection \<open>The generic repository on the content collection\<close>

definition findOne :: "('d \<Rightarrow> bool) \<Rightarrow> 'd list \<Rightarrow> 'd option" where
  "findOne query docs = find query docs"

text \<open>Writing to the first document that matches, and the collection without it.\<close>

fun replace_first :: "('d \<Rightarrow> bool) \<Rightarrow> 'd \<Rightarrow> 'd list \<Rightarrow> 'd list" where
  "replace_first P x [] = []"
| "replace_first P x (y # ys) = (if P y then x # ys else y # replace_first P x ys)"

fun remove_first :: "('d \<Rightarrow> bool) \<Rightarrow> 'd list \<Rightarrow> 'd list" where
  "remove_first P [] = []"
| "remove_first P (y # ys) = (if P y then ys else y # remove_first P ys)"

definition findById :: "content list \<Rightarrow> string \<Rightarrow> content option" where
  "findById docs i = findOne (\<lambda>d. ID d = Some i) docs"

text \<open>
  The schema's validators, as the document database binding runs them: \<open>required\<close>
  on a string rejects an absent and an empty value; \<open>match\<close>, \<open>minlength\<close> and
  \<open>maxlength\<close> pass an absent value, and \<open>match\<close> passes the empty string too.
\<close>

definition slug_match :: "string option \<Rightarrow> bool" where
  "slug_match v = (case v of None \<Rightarrow> True | Some s \<Rightarrow> s = [] \<or> list_all slug_char s)"

definition title_length :: "string option \<Rightarrow> bool" where
  "title_length v = (case v of None \<Rightarrow> True | Some s \<Rightarrow> 1 \<le> length s \<and> length s \<le> 200)"

definition validate_author :: "author option \<Rightarrow> string list" where
  "validate_author v =
     (case v of
        None \<Rightarrow> [''author'']
      | Some a \<Rightarrow>
          (if author_id a = [] then [''author.id''] else []) @
          (if author_name a = [] then [''author.name''] else []) @
          (if author_email a = [] then [''author.email''] else []))"

text \<open>The paths that fail validation when a document is saved.\<close>

definition validate_content :: "content \<Rightarrow> string list" where
  "validate_content d =
     (if truthy (ID d) then [] else [''ID'']) @
     (if ctype d = None then [''type''] else []) @
     (if truthy (title d) \<and> title_length (title d) then [] else [''title'']) @
     (if truthy (slug d) \<and> slug_match (slug d) then [] else [''slug'']) @
     (if status d = Some Published \<and> \<not> truthy (body d) then [''content''] else []) @
     (if status d = None then [''status''] else []) @
     validate_author (author d)"

text \<open>\<open>ContentSchema.pre('save')\<close>\<close>

definition content_pre_save :: "bool \<Rightarrow> int \<Rightarrow> content \<Rightarrow> content" where
  "content_pre_save isNew now d =
     (let ts1 = (if isNew then (timestamps d)\<lparr>created_at := Some now\<rparr> else timestamps d);
          ts2 = ts1\<lparr>updated_at := Some now\<rparr>;
          ts3 = (if status d = Some Published \<and> published_at ts2 = None
                 then ts2\<lparr>published_at := Some now\<rparr> else ts2)
      in d\<lparr>timestamps := ts3\<rparr>)"

text \<open>
  \<open>document.save()\<close>: validation, then the hook, then the write. The collection has
  unique indexes on \<open>ID\<close> and \<open>slug\<close>; a new document is appended, an existing one
  replaces the stored document with its \<open>ID\<close>, and the slug index is consulted when the
  slug changed.
\<close>

definition content_save ::
  "content list \<Rightarrow> bool \<Rightarrow> int \<Rightarrow> content \<Rightarrow> error + (content \<times> content list)" where
  "content_save docs isNew now d =
     (case validate_content d of
        p # ps \<Rightarrow> Inl (ValidationError (p # ps))
      | [] \<Rightarrow>
          (let d' = content_pre_save isNew now d
           in if isNew
              then if list_ex (\<lambda>e. ID e = ID d') docs then Inl (DuplicateKey ''ID'')
                   else if list_ex (\<lambda>e. slug e = slug d') docs then Inl (DuplicateKey ''slug'')
                   else Inr (d', docs @ [d'])
              else (case findOne (\<lambda>e. ID e = ID d') docs of
                      None \<Rightarrow> Inl DocumentNotFound
                    | Some stored \<Rightarrow>
                        if slug d' \<noteq> slug stored \<and>
                           list_ex (\<lambda>e. slug e = slug d') (remove_first (\<lambda>e. ID e = ID d') docs)
                        then Inl (DuplicateKey ''slug'')
                        else Inr (d', replace_first (\<lambda>e. ID e = ID d') d' docs))))"

text \<open>
  \<open>new this.model(data)\<close>: the schema's defaults (a generated \<open>ID\<close>, status draft) and
  the \<open>lowercase\<close> setter of \<open>slug\<close>. \<open>fresh\<close> is the identifier the generator draws.
\<close>

definition new_content :: "string \<Rightarrow> content \<Rightarrow> content" where
  "new_content fresh data =
     data\<lparr>ID := (case ID data of None \<Rightarrow> Some fresh | Some i \<Rightarrow> Some i),
          status := (case status data of None \<Rightarrow> Some Draft | Some st \<Rightarrow> Some st),
          slug := map_option toLowerCase (slug data)\<rparr>"

text \<open>\<open>Base.insert\<close>\<close>

definition base_insert ::
  "content list \<Rightarrow> string \<Rightarrow> int \<Rightarrow> content \<Rightarrow> error + (content \<times> content list)" where
  "base_insert docs fresh now data = content_save docs True now (new_content fresh data)"

subsection \<open>The content repository\<close>

text \<open>
  \<open>ensureUniqueSlug\<close>: the \<open>while (true)\<close> loop with its two variables. \<open>None\<close> is
  a loop that never returns. The counter is a JavaScript number; it is modelled as a
  natural number, which it equals below \<open>2^53\<close>.

  The query is \<open>{ slug }\<close>, with \<open>ID: { $ne: excludeID }\<close> when \<open>excludeID\<close> is
  truthy. The slug path is declared \<open>lowercase: true\<close>, and the binding applies that
  setter when it casts the filter of a query, so the lookup compares the stored slug with
  the lowercase form of the probe. The loop still returns the probe as it built it.
\<close>

definition slug_query :: "string \<Rightarrow> string option \<Rightarrow> content \<Rightarrow> bool" where
  "slug_query s excludeID d =
     (slug d = Some (toLowerCase s) \<and> (if truthy excludeID then ID d \<noteq> excludeID else True))"

partial_function (option) ensureUniqueSlug_loop ::
  "content list \<Rightarrow> string \<Rightarrow> string option \<Rightarrow> string \<Rightarrow> nat \<Rightarrow> string option" where
  "ensureUniqueSlug_loop docs baseSlug excludeID slug_var counter =
     (case findOne (slug_query slug_var excludeID) docs of
        None \<Rightarrow> Some slug_var
      | Some existing \<Rightarrow>
          ensureUniqueSlug_loop docs baseSlug excludeID
            (baseSlug @ ''-'' @ decimal counter) (counter + 1))"

definition ensureUniqueSlug :: "content list \<Rightarrow> string \<Rightarrow> string option \<Rightarrow> string option" where
  "ensureUniqueSlug docs baseSlug excludeID =
     ensureUniqueSlug_loop docs baseSlug excludeID baseSlug 1"

text \<open>
  \<open>ContentModel.insert\<close>. The outer \<open>None\<close> is a call that never returns; \<open>Inl\<close> is
  the error thrown, \<open>Inr\<close> the stored document with the collection after the call.
\<close>

definition insert ::
  "content list \<Rightarrow> string \<Rightarrow> int \<Rightarrow> content \<Rightarrow> (error + (content \<times> content list)) option" where
  "insert docs fresh now data =
     (let contentData =
            data\<lparr>ctype := (case ctype data of None \<Rightarrow> Some Page | Some t \<Rightarrow> Some t),
                 status := (case status data of None \<Rightarrow> Some Draft | Some st \<Rightarrow> Some st)\<rparr>
      in case title contentData of
           None \<Rightarrow> Some (Inl TitleRequired)
         | Some t \<Rightarrow>
             if t = [] then Some (Inl TitleRequired)
             else (let base = (case slug contentData of
                                 None \<Rightarrow> generateSlug t
                               | Some s \<Rightarrow> if s = [] then generateSlug t else s)
                   in case ensureUniqueSlug docs base None of
                        None \<Rightarrow> None
                      | Some s \<Rightarrow>
                          Some (base_insert docs fresh now (contentData\<lparr>slug := Some s\<rparr>))))"

text \<open>
  A slug is taken when some document has exactly that slug and is not the excluded one; an
  absent and an empty \<open>excludeID\<close> exclude nothing. The probes of the loop are the base
  slug and then the base slug with \<open>-1\<close>, \<open>-2\<close>, ... appended.
\<close>

definition slug_taken :: "content list \<Rightarrow> string option \<Rightarrow> string \<Rightarrow> bool" where
  "slug_taken docs excludeID s =
     (\<exists>d \<in> set docs.
        slug d = Some s \<and> (case excludeID of None \<Rightarrow> True | Some e \<Rightarrow> e = [] \<or> ID d \<noteq> Some e))"

definition probe :: "string \<Rightarrow> nat \<Rightarrow> string" where
  "probe baseSlug n = (if n = 0 then baseSlug else baseSlug @ ''-'' @ decimal n)"

text \<open>Example documents: the data of the insert scenario and what the first insert stores.\<close>

definition hello_world :: content where
  "hello_world =
     \<lparr>ID = None, ctype = Some Blog, title = Some ''Hello World!'', slug = None, body = None,
      status = Some Draft,
      author = Some \<lparr>author_id = ''u1'', author_name = ''Ann'', author_email = ''ann@example.org''\<rparr>,
      timestamps = \<lparr>created_at = None, updated_at = None, published_at = None\<rparr>\<rparr>"

definition bang_title :: content where
  "bang_title = hello_world\<lparr>title := Some ''!!!''\<rparr>"

definition stored_hello :: content where
  "stored_hello = hello_world\<lparr>ID := Some ''id1'', slug := Some ''hello-world''\<rparr>"

definition first_hello :: content where
  "first_hello =
     hello_world\<lparr>ID := Some ''id1'', slug := Some ''hello-world'',
       timestamps := \<lparr>created_at = Some 10, updated_at = Some 10, published_at = None\<rparr>\<rparr>"

subsection \<open>Updates and publishing\<close>

text \<open>
  The data object of an update is a document whose absent paths are left alone; its
  \<open>timestamps\<close> fields stand for the dotted paths \<open>timestamps.created_at\<close> and so on.
  \<open>$set\<close> assigns the paths that are present.
\<close>

definition no_fields :: content where
  "no_fields =
     \<lparr>ID = None, ctype = None, title = None, slug = None, body = None, status = None,
      author = None,
      timestamps = \<lparr>created_at = None, updated_at = None, published_at = None\<rparr>\<rparr>"

definition or_else :: "'a option \<Rightarrow> 'a option \<Rightarrow> 'a option" where
  "or_else new old = (case new of None \<Rightarrow> old | Some v \<Rightarrow> Some v)"

definition apply_set :: "content \<Rightarrow> content \<Rightarrow> content" where
  "apply_set data d =
     \<lparr>ID = or_else (ID data) (ID d),
      ctype = or_else (ctype data) (ctype d),
      title = or_else (title data) (title d),
      slug = or_else (slug data) (slug d),
      body = or_else (body data) (body d),
      status = or_else (status data) (status d),
      author = or_else (author data) (author d),
      timestamps =
        \<lparr>created_at = or_else (created_at (timestamps data)) (created_at (timestamps d)),
         updated_at = or_else (updated_at (timestamps data)) (updated_at (timestamps d)),
         published_at = or_else (published_at (timestamps data)) (published_at (timestamps d))\<rparr>\<rparr>"

text \<open>
  The update validators (\<open>runValidators: true\<close>) look at the paths the update sets. The
  \<open>required\<close> condition of \<open>content\<close> reads \<open>this.status\<close>, which is not the document
  in an update, so that path is not checked.
\<close>

definition validate_update :: "content \<Rightarrow> string list" where
  "validate_update data =
     (case ID data of None \<Rightarrow> [] | Some i \<Rightarrow> if i = [] then [''ID''] else []) @
     (case title data of None \<Rightarrow> []
      | Some t \<Rightarrow> if t \<noteq> [] \<and> title_length (Some t) then [] else [''title'']) @
     (case slug data of None \<Rightarrow> []
      | Some s \<Rightarrow> if s \<noteq> [] \<and> slug_match (Some s) then [] else [''slug'']) @
     (case author data of None \<Rightarrow> [] | Some a \<Rightarrow> validate_author (Some a))"

text \<open>
  \<open>Base.update\<close>: \<open>findOneAndUpdate({ ID }, { $set: data }, { new: true, runValidators: true })\<close>.
  No save hook runs. A unique index is consulted for a key the update changes.
\<close>

definition base_update ::
  "content list \<Rightarrow> string \<Rightarrow> content \<Rightarrow> error + (content \<times> content list)" where
  "base_update docs i data =
     (let data' = data\<lparr>slug := map_option toLowerCase (slug data)\<rparr>
      in case validate_update data' of
           p # ps \<Rightarrow> Inl (ValidationError (p # ps))
         | [] \<Rightarrow>
             (case findOne (\<lambda>d. ID d = Some i) docs of
                None \<Rightarrow> Inl DocumentNotFound
              | Some d \<Rightarrow>
                  (let d' = apply_set data' d;
                       others = remove_first (\<lambda>e. ID e = Some i) docs
                   in if ID d' \<noteq> ID d \<and> list_ex (\<lambda>e. ID e = ID d') others
                      then Inl (DuplicateKey ''ID'')
                      else if slug d' \<noteq> slug d \<and> list_ex (\<lambda>e. slug e = slug d') others
                      then Inl (DuplicateKey ''slug'')
                      else Inr (d', replace_first (\<lambda>e. ID e = Some i) d' docs))))"

text \<open>\<open>ContentModel.update\<close>; the outer \<open>None\<close> is a call that never returns.\<close>

definition update ::
  "content list \<Rightarrow> string \<Rightarrow> content \<Rightarrow> (error + (content \<times> content list)) option" where
  "update docs i data =
     (case (case slug data of
              None \<Rightarrow> Some data
            | Some s \<Rightarrow>
                if s = [] then Some data
                else map_option (\<lambda>u. data\<lparr>slug := Some u\<rparr>) (ensureUniqueSlug docs s (Some i))) of
        None \<Rightarrow> None
      | Some data1 \<Rightarrow>
          (case (case title data1 of
                   None \<Rightarrow> Some data1
                 | Some t \<Rightarrow>
                     if t \<noteq> [] \<and> \<not> truthy (slug data1)
                     then (case findById docs i of
                             None \<Rightarrow> Some data1
                           | Some existingContent \<Rightarrow>
                               if \<not> truthy (slug existingContent)
                               then map_option (\<lambda>u. data1\<lparr>slug := Some u\<rparr>)
                                      (ensureUniqueSlug docs (generateSlug t) (Some i))
                               else Some data1)
                     else Some data1) of
             None \<Rightarrow> None
           | Some data2 \<Rightarrow> Some (base_update docs i data2)))"

text \<open>\<open>ContentModel.publishContent\<close>\<close>

definition publishContent ::
  "content list \<Rightarrow> string \<Rightarrow> int \<Rightarrow> (error + (content \<times> content list)) option" where
  "publishContent docs i now =
     update docs i
       (no_fields\<lparr>status := Some Published,
                  timestamps := (timestamps no_fields)\<lparr>published_at := Some now\<rparr>\<rparr>)"

text \<open>\<open>ContentSchema.methods.publish\<close>, on a stored document.\<close>

definition publish ::
  "content list \<Rightarrow> int \<Rightarrow> content \<Rightarrow> error + (content \<times> content list)" where
  "publish docs now this =
     content_save docs False now
       (this\<lparr>status := Some Published,
             timestamps := (timestamps this)\<lparr>published_at := Some now\<rparr>\<rparr>)"

text \<open>
  The publish operation as the specification words it: the status becomes published, and
  \<open>published_at\<close> is stamped only when it was unset.
\<close>

definition publish_if_unset :: "int \<Rightarrow> content \<Rightarrow> content" where
  "publish_if_unset now d =
     d\<lparr>status := Some Published,
       timestamps :=
         (timestamps d)\<lparr>published_at :=
           (case published_at (timestamps d) of None \<Rightarrow> Some now | Some t \<Rightarrow> Some t)\<rparr>\<rparr>"

text \<open>
  Example documents: one published at time 5, what \<open>publishContent\<close> at time 9 makes of
  it, and what the \<open>publish\<close> method at time 9 makes of it.
\<close>

definition published_hello :: content where
  "published_hello =
     stored_hello\<lparr>body := Some ''Hi'', status := Some Published,
       timestamps := \<lparr>created_at = Some 1, updated_at = Some 5, published_at = Some 5\<rparr>\<rparr>"

definition republished_hello :: content where
  "republished_hello =
     published_hello\<lparr>timestamps := (timestamps published_hello)\<lparr>published_at := Some 9\<rparr>\<rparr>"

definition resaved_hello :: content where
  "resaved_hello =
     republished_hello\<lparr>timestamps := (timestamps republished_hello)\<lparr>updated_at := Some 9\<rparr>\<rparr>"

section \<open>Users\<close>

text \<open>The paths of a user document that email verification reads or writes.\<close>

datatype user_role = SuperAdmin | Admin | Editor | Author | Contributor

datatype user_status = Active | Inactive | Suspended | Pending

record user =
  user_ID :: string
  username :: string
  email :: string
  role :: user_role
  user_status :: user_status
  email_verified_at :: "int option"
  email_verification_token :: "string option"

text \<open>
  The data object of a user update: \<open>None\<close> is an absent key, and for the token
  \<open>Some None\<close> is the key set to \<open>null\<close>.
\<close>

record user_fields =
  set_email_verified_at :: "int option"
  set_email_verification_token :: "string option option"
  set_status :: "user_status option"

text \<open>\<open>Base.update\<close> on the user collection.\<close>

definition user_update ::
  "user list \<Rightarrow> string \<Rightarrow> user_fields \<Rightarrow> error + (user \<times> user list)" where
  "user_update docs i data =
     (case findOne (\<lambda>u. user_ID u = i) docs of
        None \<Rightarrow> Inl DocumentNotFound
      | Some u \<Rightarrow>
          (let u' = u\<lparr>email_verified_at :=
                        or_else (set_email_verified_at data) (email_verified_at u),
                      email_verification_token :=
                        (case set_email_verification_token data of
                           None \<Rightarrow> email_verification_token u
                         | Some t \<Rightarrow> t),
                      user_status :=
                        (case set_status data of None \<Rightarrow> user_status u | Some st \<Rightarrow> st)\<rparr>
           in Inr (u', replace_first (\<lambda>e. user_ID e = i) u' docs)))"

text \<open>\<open>UserModel.verifyEmail\<close>, the repository operation.\<close>

definition verifyEmail :: "user list \<Rightarrow> string \<Rightarrow> int \<Rightarrow> error + (user \<times> user list)" where
  "verifyEmail docs userId now =
     user_update docs userId
       \<lparr>set_email_verified_at = Some now,
        set_email_verification_token = Some None,
        set_status = Some Active\<rparr>"

text \<open>
  \<open>UserSchema.methods.verifyEmail\<close>, the assignments it makes to the document before it
  saves it.
\<close>

definition methods_verifyEmail :: "int \<Rightarrow> user \<Rightarrow> user" where
  "methods_verifyEmail now this =
     (let u1 = this\<lparr>email_verified_at := Some now\<rparr>;
          u2 = u1\<lparr>email_verification_token := None\<rparr>
      in if user_status u2 = Pending then u2\<lparr>user_status := Active\<rparr> else u2)"

text \<open>Example document: a suspended user who has not verified the address.\<close>

definition suspended_user :: user where
  "suspended_user =
     \<lparr>user_ID = ''u1'', username = ''ann'', email = ''ann@example.org'', role = Contributor,
      user_status = Suspended, email_verified_at = None,
      email_verification_token = Some ''t0ken''\<rparr>"

section \<open>Sessions\<close>










section \<open>Settings\<close>

text \<open>
  A setting's value is a value the database holds: null, a boolean, a number, a string, an
  object or an array. Numbers are modelled by integers; no modelled operation computes with
  them, they are only compared for equality and with lengths. The candidate value of a call
  is such a value or \<open>undefined\<close>, which is \<open>None\<close>.
\<close>

datatype js_value =
    VNull
  | VBool bool
  | VNumber int
  | VString string
  | VObject "(string \<times> js_value) list"
  | VArray "js_value list"

datatype setting_type = TString | TNumber | TBoolean | TObject | TArray

record validation_rules =
  required :: bool
  min_length :: "int option"
  max_length :: "int option"
  pattern :: "string option"
  options :: "js_value list"

text \<open>
  The audit timestamps and the \<open>editable\<close> flag are left out: no modelled operation reads
  them.
\<close>

record setting =
  key :: string
  setting_value :: js_value
  stype :: setting_type
  category :: string
  label :: string
  description :: "string option"
  default_value :: "js_value option"
  validation :: "validation_rules option"
  access_level :: string
  updated_by :: "string option"

text \<open>\<open>Base.getlist\<close> with a query and a sort key.\<close>

definition getlist :: "('d \<Rightarrow> bool) \<Rightarrow> ('d \<Rightarrow> 'k::linorder) \<Rightarrow> 'd list \<Rightarrow> 'd list" where
  "getlist query sort_by docs = sort_key sort_by (filter query docs)"

subsection \<open>The JavaScript runtime\<close>






subsection \<open>Validation of a candidate value\<close>










subsection \<open>Seeding the defaults\<close>

definition smtp_value :: js_value where
  "smtp_value =
     VObject [(''host'', VString ''''), (''port'', VNumber 587), (''secure'', VBool False),
              (''auth'', VObject [(''user'', VString ''''), (''pass'', VString '''')])]"






definition default_smtp_settings :: setting where
  "default_smtp_settings =
     \<lparr>key = ''smtp_settings'', setting_value = smtp_value, stype = TObject,
      category = ''email'', label = ''SMTP Settings'',
      description = Some ''Email server configuration'', default_value = None,
      validation = None, access_level = ''super_admin'', updated_by = None\<rparr>"




subsection \<open>Reading by access level\<close>

text \<open>
  \<open>levels[accessLevel]\<close> reads a property of an object literal: one of its three own
  properties, or a member it inherits from \<open>Object.prototype\<close>, or \<open>undefined\<close>. Of the
  inherited members, \<open>__proto__\<close> is the prototype object itself and the others are
  functions; a function is kept as its source text, which is what the binding makes of it.
\<close>

datatype property = Own "string list" | InheritedFunction string | InheritedObject

definition object_prototype_members :: "string list" where
  "object_prototype_members =
     [''constructor'', ''__proto__'', ''hasOwnProperty'', ''isPrototypeOf'',
      ''propertyIsEnumerable'', ''toLocaleString'', ''toString'', ''valueOf'',
      ''__defineGetter__'', ''__defineSetter__'', ''__lookupGetter__'', ''__lookupSetter__'']"

text \<open>
  The source text of a built-in function; the member \<open>constructor\<close> is the function
  \<open>Object\<close>.
\<close>

definition function_text :: "string \<Rightarrow> string" where
  "function_text member =
     ''function '' @ (if member = ''constructor'' then ''Object'' else member) @
     ''() { [native code] }''"

definition levels :: "string \<Rightarrow> property option" where
  "levels accessLevel =
     (if accessLevel = ''public'' then Some (Own [''public''])
      else if accessLevel = ''admin'' then Some (Own [''public'', ''admin''])
      else if accessLevel = ''super_admin'' then Some (Own [''public'', ''admin'', ''super_admin''])
      else if accessLevel = ''__proto__'' then Some InheritedObject
      else if accessLevel \<in> set object_prototype_members
      then Some (InheritedFunction (function_text accessLevel))
      else None)"

text \<open>
  \<open>SettingsModel.getSettingsByAccessLevel\<close>. An inherited member is a function or an
  object, which is truthy, so the fallback is not taken and the member is the operand of
  \<open>$in\<close>. The binding takes an operand that is not an array for the array of that one
  element, and casts the element to the type of the path, a string: a function is cast to
  its source text, so the query selects the settings whose level is that text; the
  prototype object has no cast to a string, and the call throws.
\<close>

definition getSettingsByAccessLevel :: "setting list \<Rightarrow> string \<Rightarrow> error + setting list" where
  "getSettingsByAccessLevel docs accessLevel =
     (case (case levels accessLevel of None \<Rightarrow> Own [''public''] | Some p \<Rightarrow> p) of
        Own allowedLevels \<Rightarrow>
          Inr (getlist (\<lambda>d. access_level d \<in> set allowedLevels) (\<lambda>d. (category d, label d)) docs)
      | InheritedFunction source \<Rightarrow>
          Inr (getlist (\<lambda>d. access_level d \<in> set [source]) (\<lambda>d. (category d, label d)) docs)
      | InheritedObject \<Rightarrow> Inl CastError)"


definition site_name :: setting where
  "site_name =
     \<lparr>key = ''site_name'', setting_value = VString ''Acme'', stype = TString,
      category = ''general'', label = ''Site Name'', description = None, default_value = None,
      validation = Some \<lparr>required = True, min_length = None, max_length = Some 0,
                          pattern = None, options = []\<rparr>,
      access_level = ''public'', updated_by = None\<rparr>"





definition theme_name :: setting where
  "theme_name =
     \<lparr>key = ''theme_name'', setting_value = VString ''plain'', stype = TString,
      category = ''appearance'', label = ''Theme'', description = None, default_value = None,
      validation = Some \<lparr>required = True, min_length = Some 2, max_length = Some 10,
                          pattern = Some ''^[a-z]+$'', options = []\<rparr>,
      access_level = ''admin'', updated_by = None\<rparr>"



definition example_settings :: "setting list" where
  "example_settings = [site_name, theme_name, default_smtp_settings]"

section \<open>Properties of the slug generator\<close>

lemma set_replace_runs: "set (replace_runs P s) \<subseteq> {c. c \<in> set s \<and> \<not> P c} \<union> {CHR ''-''}"
proof (induction P s rule: replace_runs.induct)
  case (1 P) show ?case by simp
next
  case (2 P c cs)
  show ?case
  proof (cases "P c")
    case True
    have "set (dropWhile P cs) \<subseteq> set cs" by (rule set_dropWhileD[THEN subsetI]) 
    with 2 True show ?thesis by auto
  next
    case False with 2 show ?thesis by auto
  qed
qed

lemma set_strip_ends: "set (strip_ends s) \<subseteq> set s"
  by (auto simp: strip_ends_def Let_def split: list.splits if_splits dest: in_set_butlastD)

lemma slug_char_generateSlug: "c \<in> set (generateSlug T) \<Longrightarrow> slug_char c"
proof -
  assume "c \<in> set (generateSlug T)"
  let ?a = "remove_special (trim (toLowerCase T))"
  let ?b = "replace_runs is_space ?a"
  let ?c = "replace_runs is_hyphen ?b"
  from \<open>c \<in> set (generateSlug T)\<close> have "c \<in> set ?c"
    using set_strip_ends unfolding generateSlug_def by blast
  then have "c \<in> set ?b \<or> c = CHR ''-''" using set_replace_runs[of is_hyphen ?b] by auto
  then have "(c \<in> set ?a \<and> \<not> is_space c) \<or> c = CHR ''-''"
    using set_replace_runs[of is_space ?a] by auto
  then show "slug_char c"
    by (auto simp: remove_special_def slug_char_def is_hyphen_def)
qed

lemma lower_slug_char: "slug_char c \<Longrightarrow> lower_char c = c"
  by (auto simp: slug_char_def lower_char_def is_az_def is_digit_def is_hyphen_def code_unit_def Let_def)

lemma no_adjacent_Cons:
  "no_adjacent (a # s) = ((s = [] \<or> \<not> (is_hyphen a \<and> is_hyphen (hd s))) \<and> no_adjacent s)"
  by (cases s) auto

lemma hd_replace_runs: "s \<noteq> [] \<Longrightarrow> \<not> P (hd s) \<Longrightarrow> replace_runs P s \<noteq> [] \<and> hd (replace_runs P s) = hd s"
  by (cases s) auto

lemma no_adjacent_runs: "no_adjacent (replace_runs is_hyphen s)"
proof (induction "is_hyphen" s rule: replace_runs.induct)
  case 1 show ?case by simp
next
  case (2 c cs)
  show ?case
  proof (cases "is_hyphen c")
    case True
    let ?d = "dropWhile is_hyphen cs"
    have "replace_runs is_hyphen ?d = [] \<or> \<not> is_hyphen (hd (replace_runs is_hyphen ?d))"
    proof (cases "?d = []")
      case True then show ?thesis by (simp only: replace_runs.simps simp_thms)
    next
      case False
      then have "\<not> is_hyphen (hd ?d)" using hd_dropWhile by blast
      with False show ?thesis using hd_replace_runs[of ?d is_hyphen] by simp
    qed
    with 2 True show ?thesis by (simp add: no_adjacent_Cons)
  next
    case False with 2 show ?thesis by (simp add: no_adjacent_Cons)
  qed
qed

lemma no_adjacent_sublist: "no_adjacent s = (\<not> sublist ''--'' s)"
  by (induction s rule: no_adjacent.induct) (auto simp: sublist_Cons_right is_hyphen_def)

lemma no_adjacent_butlast: "no_adjacent s \<Longrightarrow> no_adjacent (butlast s)"
  by (induction s rule: no_adjacent.induct) auto

lemma last_butlast_hyphen:
  "no_adjacent s \<Longrightarrow> is_hyphen (last s) \<Longrightarrow> butlast s \<noteq> [] \<Longrightarrow> \<not> is_hyphen (last (butlast s))"
  by (induction s rule: no_adjacent.induct) (auto split: if_splits)

lemma prefix_hyphen: "prefix ''-'' s = (s \<noteq> [] \<and> is_hyphen (hd s))"
  by (cases s) (auto simp: is_hyphen_def)

lemma suffix_hyphen: "suffix ''-'' s = (s \<noteq> [] \<and> is_hyphen (last s))"
proof (cases s rule: rev_cases)
  case Nil then show ?thesis by simp
next
  case (snoc ys y) then show ?thesis by (auto simp: is_hyphen_def)
qed

lemma no_adjacent_tl: "no_adjacent (c # cs) \<Longrightarrow> no_adjacent cs"
  by (simp add: no_adjacent_Cons)

lemma hd_butlast: "butlast s \<noteq> [] \<Longrightarrow> hd (butlast s) = hd s"
  by (cases s) (auto split: if_splits)

lemma strip_ends_shape:
  assumes "no_adjacent s"
  shows "no_adjacent (strip_ends s) \<and> \<not> prefix ''-'' (strip_ends s) \<and> \<not> suffix ''-'' (strip_ends s)"
proof -
  define t where "t = (case s of [] \<Rightarrow> [] | c # cs \<Rightarrow> if is_hyphen c then cs else s)"
  have t_adj: "no_adjacent t"
    using assms by (auto simp: t_def no_adjacent_Cons split: list.splits)
  have t_hd: "t = [] \<or> \<not> is_hyphen (hd t)"
    using assms by (auto simp: t_def no_adjacent_Cons split: list.splits)
  have eq: "strip_ends s = (if t \<noteq> [] \<and> is_hyphen (last t) then butlast t else t)"
    by (simp add: strip_ends_def t_def)
  show ?thesis
  proof (cases "t \<noteq> [] \<and> is_hyphen (last t)")
    case True
    then have r: "strip_ends s = butlast t" using eq by simp
    have "no_adjacent (butlast t)" using t_adj by (rule no_adjacent_butlast)
    moreover have "butlast t = [] \<or> \<not> is_hyphen (hd (butlast t))"
      using t_hd hd_butlast[of t] by auto
    moreover have "butlast t = [] \<or> \<not> is_hyphen (last (butlast t))"
      using last_butlast_hyphen[OF t_adj] True by blast
    ultimately show ?thesis unfolding r prefix_hyphen suffix_hyphen by blast
  next
    case False
    then have r: "strip_ends s = t" using eq by auto
    from False t_adj t_hd show ?thesis unfolding r prefix_hyphen suffix_hyphen by blast
  qed
qed

text \<open>
  Claim C2. For every title \<open>T\<close>, \<open>generateSlug T\<close> is lowercase (lowercasing leaves it
  unchanged), every character of it is in \<open>[a-z0-9-]\<close> (it matches \<open>^[a-z0-9-]*$\<close>), it does
  not begin with a hyphen, does not end with one, and has no two hyphens in a row.
\<close>

theorem generateSlug_shape:
  "toLowerCase (generateSlug T) = generateSlug T \<and>
   list_all slug_char (generateSlug T) \<and>
   \<not> prefix ''-'' (generateSlug T) \<and>
   \<not> suffix ''-'' (generateSlug T) \<and>
   \<not> sublist ''--'' (generateSlug T)"
proof -
  have chars: "list_all slug_char (generateSlug T)"
    by (simp add: list_all_iff slug_char_generateSlug)
  then have lower: "toLowerCase (generateSlug T) = generateSlug T"
    by (simp add: toLowerCase_def list_all_iff map_idI lower_slug_char)
  have "no_adjacent (replace_runs is_hyphen (replace_runs is_space
       (remove_special (trim (toLowerCase T)))))" by (rule no_adjacent_runs)
  from strip_ends_shape[OF this] have
    "no_adjacent (generateSlug T) \<and> \<not> prefix ''-'' (generateSlug T) \<and> \<not> suffix ''-'' (generateSlug T)"
    by (simp add: generateSlug_def)
  with chars lower show ?thesis by (simp add: no_adjacent_sublist)
qed

theorem generateSlug_shape_witness:
  "generateSlug ''  --Hello,   World!-- '' = ''hello-world'' \<and>
   toLowerCase ''hello-world'' = ''hello-world'' \<and>
   list_all slug_char ''hello-world'' \<and>
   \<not> prefix ''-'' ''hello-world'' \<and> \<not> suffix ''-'' ''hello-world'' \<and>
   \<not> sublist ''--'' ''hello-world''"
proof -
  have e: "generateSlug ''  --Hello,   World!-- '' = ''hello-world''" by code_simp
  from generateSlug_shape[of "''  --Hello,   World!-- ''"] show ?thesis unfolding e by simp
qed

section \<open>Properties of the slug probe\<close>

lemma findOne_None: "(findOne q docs = None) = (\<not> (\<exists>d \<in> set docs. q d))"
  by (auto simp: findOne_def find_None_iff)

lemma digit_char_inj: "a < 10 \<Longrightarrow> b < 10 \<Longrightarrow> digit_char a = digit_char b \<Longrightarrow> a = b"
proof -
  assume a: "a < 10" and b: "b < 10" and eq: "digit_char a = digit_char b"
  from eq have "(of_char (digit_char a) :: nat) = of_char (digit_char b)" by simp
  then have "(48 + a) mod 256 = (48 + b) mod 256" by (simp add: digit_char_def)
  with a b show "a = b" by simp
qed

lemma decimal_nonempty: "decimal n \<noteq> []"
  by (subst decimal.simps) simp

lemma dec1: "decimal (Suc 0) = ''1''"
  by code_simp

lemma decimal_inj: "decimal m = decimal n \<Longrightarrow> m = n"
proof (induction m arbitrary: n rule: decimal.induct)
  case (1 m)
  show ?case
  proof (cases "m < 10")
    case True
    then have dm: "decimal m = [digit_char m]" by (subst decimal.simps) simp
    show ?thesis
    proof (cases "n < 10")
      case True
      then have "decimal n = [digit_char n]" by (subst decimal.simps) simp
      with dm "1.prems" have "digit_char m = digit_char n" by simp
      with \<open>m < 10\<close> True show ?thesis by (rule digit_char_inj)
    next
      case False
      then have "decimal n = decimal (n div 10) @ [digit_char (n mod 10)]"
        by (subst decimal.simps) simp
      with dm "1.prems" have "decimal (n div 10) = []" by simp
      then show ?thesis using decimal_nonempty by blast
    qed
  next
    case False
    then have dm: "decimal m = decimal (m div 10) @ [digit_char (m mod 10)]"
      by (subst decimal.simps) simp
    show ?thesis
    proof (cases "n < 10")
      case True
      then have "decimal n = [digit_char n]" by (subst decimal.simps) simp
      with dm "1.prems" have "decimal (m div 10) = []" by simp
      then show ?thesis using decimal_nonempty by blast
    next
      case nf: False
      then have "decimal n = decimal (n div 10) @ [digit_char (n mod 10)]"
        by (subst decimal.simps) simp
      with dm "1.prems" have a: "decimal (m div 10) = decimal (n div 10)"
        and b: "digit_char (m mod 10) = digit_char (n mod 10)" by simp_all
      from "1.IH"[OF False a] have "m div 10 = n div 10" .
      moreover from b have "m mod 10 = n mod 10" by (intro digit_char_inj) simp_all
      ultimately show ?thesis by (metis div_mult_mod_eq)
    qed
  qed
qed

lemma probe_inj: "probe b m = probe b n \<Longrightarrow> m = n"
  by (auto simp: probe_def dest: decimal_inj split: if_splits)

lemma lower_digit: "d < 10 \<Longrightarrow> lower_char (digit_char d) = digit_char d"
proof -
  assume "d < 10"
  then have "code_unit (digit_char d) = 48 + d" by (simp add: code_unit_def digit_char_def)
  with \<open>d < 10\<close> show ?thesis by (simp add: lower_char_def Let_def)
qed

lemma lower_decimal: "toLowerCase (decimal n) = decimal n"
proof (induction n rule: decimal.induct)
  case (1 n)
  show ?case
  proof (cases "n < 10")
    case True
    then have "decimal n = [digit_char n]" by (subst decimal.simps) simp
    with True show ?thesis by (simp add: toLowerCase_def lower_digit)
  next
    case False
    then have d: "decimal n = decimal (n div 10) @ [digit_char (n mod 10)]"
      by (subst decimal.simps) simp
    have "toLowerCase (decimal (n div 10)) = decimal (n div 10)" using "1.IH"[OF False] .
    then show ?thesis unfolding d by (simp add: toLowerCase_def lower_digit)
  qed
qed

lemma lower_hyphen: "lower_char CHR ''-'' = CHR ''-''"
  by code_simp

lemma lower_append: "toLowerCase (a @ b) = toLowerCase a @ toLowerCase b"
  by (simp add: toLowerCase_def)

lemma lower_Cons_hyphen: "toLowerCase (CHR ''-'' # b) = CHR ''-'' # toLowerCase b"
  by (simp add: toLowerCase_def lower_hyphen)

lemmas lower_suffix = lower_append lower_Cons_hyphen lower_decimal

lemma lower_suffixed: "toLowerCase (b @ ''-'' @ decimal n) = toLowerCase b @ ''-'' @ decimal n"
  by (simp add: lower_suffix)

lemma lower_probe: "toLowerCase (probe b n) = probe (toLowerCase b) n"
  by (simp add: probe_def lower_suffix)

lemma lookup_iff:
  "(\<exists>d \<in> set docs. slug_query s ex d) = slug_taken docs ex (toLowerCase s)"
  by (cases ex) (auto simp: slug_query_def slug_taken_def truthy_def)

lemma loop_step_free:
  "\<not> slug_taken docs ex (toLowerCase s) \<Longrightarrow> ensureUniqueSlug_loop docs b ex s c = Some s"
proof -
  assume "\<not> slug_taken docs ex (toLowerCase s)"
  then have "findOne (slug_query s ex) docs = None"
    unfolding lookup_iff[symmetric] by (simp add: findOne_None)
  then show ?thesis by (subst ensureUniqueSlug_loop.simps) simp
qed

lemma loop_step_taken:
  "slug_taken docs ex (toLowerCase s) \<Longrightarrow>
   ensureUniqueSlug_loop docs b ex s c = ensureUniqueSlug_loop docs b ex (b @ ''-'' @ decimal c) (c + 1)"
proof -
  assume "slug_taken docs ex (toLowerCase s)"
  then have "findOne (slug_query s ex) docs \<noteq> None"
    unfolding lookup_iff[symmetric] by (simp add: findOne_None)
  then obtain e where "findOne (slug_query s ex) docs = Some e" by blast
  then show ?thesis by (subst ensureUniqueSlug_loop.simps) simp
qed

lemma loop_finds:
  "\<not> slug_taken docs ex (toLowerCase (probe b m)) \<Longrightarrow> k \<le> m \<Longrightarrow>
   (\<forall>j. k \<le> j \<and> j < m \<longrightarrow> slug_taken docs ex (toLowerCase (probe b j))) \<Longrightarrow>
   ensureUniqueSlug_loop docs b ex (probe b k) (Suc k) = Some (probe b m)"
proof (induction "m - k" arbitrary: k)
  case 0
  then have "k = m" by simp
  with 0 show ?case by (simp add: loop_step_free)
next
  case (Suc d)
  then have lt: "k < m" by simp
  with Suc.prems have "slug_taken docs ex (toLowerCase (probe b k))" by simp
  then have "ensureUniqueSlug_loop docs b ex (probe b k) (Suc k) =
             ensureUniqueSlug_loop docs b ex (probe b (Suc k)) (Suc (Suc k))"
    by (simp add: loop_step_taken probe_def)
  also have "\<dots> = Some (probe b m)"
    using Suc.hyps Suc.prems lt by (intro Suc.hyps(1)) auto
  finally show ?case .
qed

lemma taken_subset: "{s. slug_taken docs ex s} \<subseteq> (\<lambda>d. the (slug d)) ` set docs"
  by (force simp: slug_taken_def)

lemma free_probe_exists: "\<exists>n \<le> length docs. \<not> slug_taken docs ex (toLowerCase (probe b n))"
proof (rule ccontr)
  assume "\<not> ?thesis"
  then have all: "\<forall>n \<le> length docs. slug_taken docs ex (probe (toLowerCase b) n)"
    by (simp add: lower_probe)
  let ?U = "(\<lambda>d. the (slug d)) ` set docs"
  have "probe (toLowerCase b) ` {0..length docs} \<subseteq> ?U"
    using all taken_subset[of docs ex] by auto
  then have "card (probe (toLowerCase b) ` {0..length docs}) \<le> card ?U"
    by (intro card_mono) auto
  moreover have "card (probe (toLowerCase b) ` {0..length docs}) = Suc (length docs)"
    by (subst card_image) (auto intro: inj_onI dest: probe_inj)
  moreover have "card ?U \<le> length docs"
    by (meson card_image_le card_length le_trans List.finite_set)
  ultimately show False by simp
qed

lemma first_free_probe:
  "\<exists>n \<le> length docs. \<not> slug_taken docs ex (toLowerCase (probe b n)) \<and>
     (\<forall>j < n. slug_taken docs ex (toLowerCase (probe b j)))"
proof -
  define P where "P n = (\<not> slug_taken docs ex (toLowerCase (probe b n)))" for n
  obtain n0 where n0: "n0 \<le> length docs" "P n0"
    using free_probe_exists[of docs ex b] P_def by blast
  define n where "n = (LEAST n. P n)"
  have "P n" unfolding n_def using n0(2) by (rule LeastI)
  moreover have "n \<le> n0" unfolding n_def using n0(2) by (rule Least_le)
  moreover have "\<forall>j < n. \<not> P j" unfolding n_def using not_less_Least by blast
  ultimately show ?thesis using n0(1) unfolding P_def by (intro exI[of _ n]) auto
qed

lemma first_free_loop:
  "\<exists>n \<le> length docs.
     ensureUniqueSlug docs baseSlug excludeID = Some (probe baseSlug n) \<and>
     \<not> slug_taken docs excludeID (toLowerCase (probe baseSlug n)) \<and>
     (\<forall>j < n. slug_taken docs excludeID (toLowerCase (probe baseSlug j)))"
proof -
  obtain n where n: "n \<le> length docs"
    "\<not> slug_taken docs excludeID (toLowerCase (probe baseSlug n))"
    "\<forall>j < n. slug_taken docs excludeID (toLowerCase (probe baseSlug j))"
    using first_free_probe by blast
  have "ensureUniqueSlug_loop docs baseSlug excludeID (probe baseSlug 0) (Suc 0) =
        Some (probe baseSlug n)"
    using n by (intro loop_finds) auto
  then have "ensureUniqueSlug docs baseSlug excludeID = Some (probe baseSlug n)"
    by (simp add: ensureUniqueSlug_def probe_def)
  with n show ?thesis by blast
qed

lemma ensure_free:
  "\<not> slug_taken docs ex (toLowerCase s) \<Longrightarrow> ensureUniqueSlug docs s ex = Some s"
  by (simp add: ensureUniqueSlug_def loop_step_free)

lemma ensure_taken_once:
  "slug_taken docs ex (toLowerCase s) \<Longrightarrow> \<not> slug_taken docs ex (toLowerCase s @ ''-1'') \<Longrightarrow>
   ensureUniqueSlug docs s ex = Some (s @ ''-1'')"
proof -
  assume t: "slug_taken docs ex (toLowerCase s)"
    and f: "\<not> slug_taken docs ex (toLowerCase s @ ''-1'')"
  have l: "toLowerCase (s @ ''-'' @ decimal 1) = toLowerCase s @ ''-1''"
    unfolding lower_suffixed by (simp add: dec1)
  have "ensureUniqueSlug docs s ex =
        ensureUniqueSlug_loop docs s ex (s @ ''-'' @ decimal 1) (1 + 1)"
    unfolding ensureUniqueSlug_def using t by (rule loop_step_taken)
  also have "\<dots> = Some (s @ ''-'' @ decimal 1)"
    using f unfolding l[symmetric] by (rule loop_step_free)
  finally show ?thesis by (simp add: dec1)
qed

lemma lc_hw: "toLowerCase ''hello-world'' = ''hello-world''"
  by code_simp

lemma lc_hw1: "toLowerCase ''hello-world-1'' = ''hello-world-1''"
  by code_simp

lemma lc_capitals: "toLowerCase ''Hello-World'' = ''hello-world''"
  by code_simp

lemma lc_all_capitals: "toLowerCase ''HELLO-WORLD'' = ''hello-world''"
  by code_simp

lemma stored_hello_slug: "slug stored_hello = Some ''hello-world''"
  by (simp add: stored_hello_def)

lemma stored_hello_ID: "ID stored_hello = Some ''id1''"
  by (simp add: stored_hello_def)

text \<open>
  Claim C10, as amended. For every collection (a finite list of documents), every base slug
  and every excluded identifier, \<open>ensureUniqueSlug\<close> returns. The lookup compares the
  lowercase form of a probe with the stored slugs: the result is the first probe of the
  sequence base, base-1, base-2, ... whose lowercase form no document other than the
  excluded one has as its slug, every earlier probe is found taken, and the index of the
  returned probe is at most the number of documents, so the loop makes at most that many
  lookups plus one.
\<close>

theorem ensureUniqueSlug_terminates:
  "\<exists>n \<le> length docs.
     ensureUniqueSlug docs baseSlug excludeID = Some (probe baseSlug n) \<and>
     \<not> slug_taken docs excludeID (toLowerCase (probe baseSlug n)) \<and>
     (\<forall>j < n. slug_taken docs excludeID (toLowerCase (probe baseSlug j)))"
  by (rule first_free_loop)

theorem ensureUniqueSlug_terminates_witness:
  "ensureUniqueSlug [stored_hello] ''hello-world'' None = Some ''hello-world-1'' \<and>
   slug_taken [stored_hello] None (toLowerCase ''hello-world'') \<and>
   ensureUniqueSlug [stored_hello] ''Hello-World'' None = Some ''Hello-World-1'' \<and>
   slug_taken [stored_hello] None (toLowerCase ''Hello-World'') \<and>
   ensureUniqueSlug [stored_hello] ''hello-world'' (Some ''id1'') = Some ''hello-world'' \<and>
   ID stored_hello = Some ''id1'' \<and> slug stored_hello = Some ''hello-world''"
proof -
  have taken: "slug_taken [stored_hello] None (toLowerCase (probe b 0))"
    if "toLowerCase b = ''hello-world''" for b
    using that by (simp add: slug_taken_def stored_hello_slug probe_def)
  have second: "ensureUniqueSlug [stored_hello] b None = Some (b @ ''-1'')"
    if b: "toLowerCase b = ''hello-world''" for b
  proof -
    obtain n where n: "n \<le> length [stored_hello]"
      "ensureUniqueSlug [stored_hello] b None = Some (probe b n)"
      "\<not> slug_taken [stored_hello] None (toLowerCase (probe b n))"
      using ensureUniqueSlug_terminates[of "[stored_hello]" b None] by blast
    from n(1) have "n = 0 \<or> n = 1" by auto
    with n(3) taken[OF b] have "n = 1" by auto
    with n(2) show ?thesis by (simp add: probe_def dec1)
  qed
  from second[OF lc_hw]
  have 1: "ensureUniqueSlug [stored_hello] ''hello-world'' None = Some ''hello-world-1''" by simp
  from second[OF lc_capitals]
  have 2: "ensureUniqueSlug [stored_hello] ''Hello-World'' None = Some ''Hello-World-1''" by simp
  obtain m where m:
    "ensureUniqueSlug [stored_hello] ''hello-world'' (Some ''id1'') = Some (probe ''hello-world'' m)"
    "\<forall>j < m. slug_taken [stored_hello] (Some ''id1'') (toLowerCase (probe ''hello-world'' j))"
    using ensureUniqueSlug_terminates[of "[stored_hello]" "''hello-world''" "Some ''id1''"] by blast
  have "\<not> slug_taken [stored_hello] (Some ''id1'') (toLowerCase (probe ''hello-world'' 0))"
    by (simp add: slug_taken_def stored_hello_ID)
  with m(2) have "m = 0" by (cases m) auto
  with m(1) have 3: "ensureUniqueSlug [stored_hello] ''hello-world'' (Some ''id1'') = Some ''hello-world''"
    by (simp add: probe_def)
  from taken[OF lc_hw] have 4: "slug_taken [stored_hello] None (toLowerCase ''hello-world'')"
    by (simp add: probe_def)
  from taken[OF lc_capitals] have 5: "slug_taken [stored_hello] None (toLowerCase ''Hello-World'')"
    by (simp add: probe_def)
  from 1 2 3 4 5 stored_hello_ID stored_hello_slug show ?thesis by (intro conjI)
qed

text \<open>
  Claim C10 as stated fails: with one document of slug \<open>hello-world\<close> and the base slug
  \<open>HELLO-WORLD\<close>, the first probe is the base slug, which no document has, so it is the
  first free probe; the loop does not return it but the second probe.
\<close>

theorem first_free_probe_counterexample:
  "probe ''HELLO-WORLD'' 0 = ''HELLO-WORLD'' \<and>
   \<not> slug_taken [stored_hello] None (probe ''HELLO-WORLD'' 0) \<and>
   ensureUniqueSlug [stored_hello] ''HELLO-WORLD'' None = Some (probe ''HELLO-WORLD'' 1) \<and>
   probe ''HELLO-WORLD'' 1 = ''HELLO-WORLD-1''"
proof -
  have "ensureUniqueSlug [stored_hello] ''HELLO-WORLD'' None = Some (''HELLO-WORLD'' @ ''-1'')"
    by (rule ensure_taken_once) (simp_all add: lc_all_capitals slug_taken_def stored_hello_slug)
  then show ?thesis by (simp add: probe_def dec1 slug_taken_def stored_hello_slug)
qed

section \<open>The insert scenarios\<close>

lemma gs_hello: "generateSlug ''Hello World!'' = ''hello-world''"
  by code_simp

lemma sc_hw: "slug_match (Some ''hello-world'')"
  by code_simp

lemma sc_hw1: "slug_match (Some ''hello-world-1'')"
  by code_simp

lemma insert_first:
  assumes "i1 \<noteq> []"
  shows "insert [] i1 t1 hello_world =
     Some (Inr (hello_world\<lparr>ID := Some i1, slug := Some ''hello-world'',
                 timestamps := \<lparr>created_at = Some t1, updated_at = Some t1, published_at = None\<rparr>\<rparr>,
               [hello_world\<lparr>ID := Some i1, slug := Some ''hello-world'',
                 timestamps := \<lparr>created_at = Some t1, updated_at = Some t1, published_at = None\<rparr>\<rparr>]))"
proof -
  have e: "ensureUniqueSlug [] ''hello-world'' None = Some ''hello-world''"
    by (rule ensure_free) (simp add: slug_taken_def)
  show ?thesis using assms
    by (simp add: insert_def hello_world_def gs_hello e base_insert_def new_content_def lc_hw
        content_save_def validate_content_def truthy_def title_length_def sc_hw
        validate_author_def content_pre_save_def Let_def)
qed

lemma insert_second:
  assumes "i1 \<noteq> []" "i2 \<noteq> []" "i1 \<noteq> i2"
    and d1_def: "d1 = hello_world\<lparr>ID := Some i1, slug := Some ''hello-world'',
                 timestamps := \<lparr>created_at = Some t1, updated_at = Some t1, published_at = None\<rparr>\<rparr>"
  shows "\<exists>d2 c2. insert [d1] i2 t2 hello_world = Some (Inr (d2, c2)) \<and> slug d2 = Some ''hello-world-1''"
proof -
  have "ensureUniqueSlug [d1] ''hello-world'' None = Some (''hello-world'' @ ''-1'')"
    by (rule ensure_taken_once) (simp_all add: lc_hw slug_taken_def d1_def)
  then have e: "ensureUniqueSlug [d1] ''hello-world'' None = Some ''hello-world-1''" by simp
  have "insert [d1] i2 t2 hello_world =
        Some (base_insert [d1] i2 t2 (hello_world\<lparr>slug := Some ''hello-world-1''\<rparr>))"
    by (simp add: insert_def hello_world_def gs_hello e)
  then show ?thesis using assms(1-3)
    by (simp add: hello_world_def base_insert_def new_content_def lc_hw1
        content_save_def validate_content_def truthy_def title_length_def sc_hw1
        validate_author_def content_pre_save_def Let_def d1_def)
qed

lemma content_save_new:
  assumes "content_save docs True now d = Inr (d', c)"
  shows "slug d' = slug d \<and> c = docs @ [d']"
proof -
  from assms have v: "validate_content d = []"
    by (cases "validate_content d") (simp_all add: content_save_def)
  from assms v have "d' = content_pre_save True now d" and "c = docs @ [d']"
    by (auto simp: content_save_def Let_def split: if_splits)
  then show ?thesis by (simp add: content_pre_save_def Let_def)
qed

lemma insert_generated_slug:
  assumes ok: "insert docs fresh now data = Some (Inr (d, c))"
    and t: "title data = Some T" and ns: "\<not> truthy (slug data)"
  shows "\<exists>s. ensureUniqueSlug docs (generateSlug T) None = Some s \<and>
             slug d = Some (toLowerCase s) \<and> c = docs @ [d]"
proof -
  define cd where "cd = data\<lparr>ctype := (case ctype data of None \<Rightarrow> Some Page | Some t \<Rightarrow> Some t),
                 status := (case status data of None \<Rightarrow> Some Draft | Some st \<Rightarrow> Some st)\<rparr>"
  from ns have base: "(case slug cd of None \<Rightarrow> generateSlug T
                       | Some s \<Rightarrow> if s = [] then generateSlug T else s) = generateSlug T"
    by (auto simp: cd_def truthy_def split: option.splits)
  from ok t have ne: "T \<noteq> []" by (auto simp: insert_def Let_def)
  from t have tcd: "title cd = Some T" by (simp add: cd_def)
  from ok have "(case ensureUniqueSlug docs (generateSlug T) None of
                   None \<Rightarrow> None
                 | Some s \<Rightarrow> Some (base_insert docs fresh now (cd\<lparr>slug := Some s\<rparr>))) =
                Some (Inr (d, c))"
    unfolding insert_def cd_def[symmetric] Let_def tcd using ne by (simp add: base)
  then obtain s where s: "ensureUniqueSlug docs (generateSlug T) None = Some s"
    and b: "base_insert docs fresh now (cd\<lparr>slug := Some s\<rparr>) = Inr (d, c)"
    by (cases "ensureUniqueSlug docs (generateSlug T) None") auto
  from b have "slug d = slug (new_content fresh (cd\<lparr>slug := Some s\<rparr>)) \<and> c = docs @ [d]"
    unfolding base_insert_def by (rule content_save_new)
  then have "slug d = Some (toLowerCase s) \<and> c = docs @ [d]" by (simp add: new_content_def)
  with s show ?thesis by blast
qed

lemma hello_twice:
  assumes t: "title data = Some ''Hello World!''" and ns: "\<not> truthy (slug data)"
    and i1: "insert [] i1 t1 data = Some (Inr (d1, c1))"
    and i2: "insert c1 i2 t2 data = Some (Inr (d2, c2))"
  shows "slug d1 = Some ''hello-world'' \<and> slug d2 = Some ''hello-world-1''"
proof -
  from insert_generated_slug[OF i1 t ns] obtain s where
    s: "ensureUniqueSlug [] ''hello-world'' None = Some s" and
    d1: "slug d1 = Some (toLowerCase s)" and c1: "c1 = [d1]" by (auto simp: gs_hello)
  have "ensureUniqueSlug [] ''hello-world'' None = Some ''hello-world''"
    by (rule ensure_free) (simp add: slug_taken_def)
  with s have "s = ''hello-world''" by simp
  with d1 have 1: "slug d1 = Some ''hello-world''" by (simp add: lc_hw)
  from insert_generated_slug[OF i2 t ns] obtain s' where
    s': "ensureUniqueSlug [d1] ''hello-world'' None = Some s'" and
    d2: "slug d2 = Some (toLowerCase s')" by (auto simp: gs_hello c1)
  have "ensureUniqueSlug [d1] ''hello-world'' None = Some (''hello-world'' @ ''-1'')"
    using 1 by (intro ensure_taken_once) (simp_all add: lc_hw slug_taken_def)
  with s' have "s' = ''hello-world-1''" by simp
  with d2 have 2: "slug d2 = Some ''hello-world-1''" by (simp add: lc_hw1)
  from 1 2 show ?thesis ..
qed

text \<open>
  Claim C1, as amended. Slugs are stored in lowercase and the lookup compares the lowercase
  form of a probe with them. For every base slug \<open>s\<close>, every collection and every
  excluded identifier, \<open>ensureUniqueSlug\<close> returns \<open>s\<close> itself when no document other
  than the excluded one has the lowercase form of \<open>s\<close> as its slug; otherwise it returns
  \<open>s-N\<close> for the lowest \<open>N \<ge> 1\<close> such that the lowercase form of \<open>s-N\<close> is not taken.
  For a base slug that is in lowercase this is the claim as it was stated. When content
  titled "Hello World!", with no slug of its own, is inserted into the empty collection and
  then again into the result, and both inserts store their document, the stored slugs are
  \<open>hello-world\<close> and \<open>hello-world-1\<close>.
\<close>

theorem ensureUniqueSlug_lowest_free:
  "(\<not> slug_taken docs excludeID (toLowerCase s) \<longrightarrow> ensureUniqueSlug docs s excludeID = Some s) \<and>
   (slug_taken docs excludeID (toLowerCase s) \<longrightarrow>
      (\<exists>N\<ge>1. ensureUniqueSlug docs s excludeID = Some (s @ ''-'' @ decimal N) \<and>
             \<not> slug_taken docs excludeID (toLowerCase s @ ''-'' @ decimal N) \<and>
             (\<forall>M. 1 \<le> M \<and> M < N \<longrightarrow>
                slug_taken docs excludeID (toLowerCase s @ ''-'' @ decimal M)))) \<and>
   (toLowerCase s = s \<longrightarrow>
      (\<not> slug_taken docs excludeID s \<longrightarrow> ensureUniqueSlug docs s excludeID = Some s) \<and>
      (slug_taken docs excludeID s \<longrightarrow>
         (\<exists>N\<ge>1. ensureUniqueSlug docs s excludeID = Some (s @ ''-'' @ decimal N) \<and>
                \<not> slug_taken docs excludeID (s @ ''-'' @ decimal N) \<and>
                (\<forall>M. 1 \<le> M \<and> M < N \<longrightarrow> slug_taken docs excludeID (s @ ''-'' @ decimal M))))) \<and>
   (title data = Some ''Hello World!'' \<and> \<not> truthy (slug data) \<and>
    insert [] i1 t1 data = Some (Inr (d1, c1)) \<and>
    insert c1 i2 t2 data = Some (Inr (d2, c2)) \<longrightarrow>
      slug d1 = Some ''hello-world'' \<and> slug d2 = Some ''hello-world-1'')"
proof -
  have A: "\<not> slug_taken docs excludeID (toLowerCase s) \<longrightarrow> ensureUniqueSlug docs s excludeID = Some s"
    by (simp add: ensure_free)
  have B: "slug_taken docs excludeID (toLowerCase s) \<longrightarrow>
      (\<exists>N\<ge>1. ensureUniqueSlug docs s excludeID = Some (s @ ''-'' @ decimal N) \<and>
             \<not> slug_taken docs excludeID (toLowerCase s @ ''-'' @ decimal N) \<and>
             (\<forall>M. 1 \<le> M \<and> M < N \<longrightarrow>
                slug_taken docs excludeID (toLowerCase s @ ''-'' @ decimal M)))"
  proof
    assume taken: "slug_taken docs excludeID (toLowerCase s)"
    obtain n where n: "ensureUniqueSlug docs s excludeID = Some (probe s n)"
      "\<not> slug_taken docs excludeID (toLowerCase (probe s n))"
      "\<forall>j < n. slug_taken docs excludeID (toLowerCase (probe s j))"
      using first_free_loop[of docs s excludeID] by blast
    from taken n(2) have pos: "1 \<le> n" by (cases n) (auto simp: probe_def)
    then have p: "probe s n = s @ ''-'' @ decimal n" by (simp add: probe_def)
    have q: "\<not> slug_taken docs excludeID (toLowerCase s @ ''-'' @ decimal n)"
      using n(2) pos by (simp add: probe_def lower_suffix)
    have "\<forall>M. 1 \<le> M \<and> M < n \<longrightarrow> slug_taken docs excludeID (toLowerCase s @ ''-'' @ decimal M)"
      using n(3) by (auto simp: probe_def lower_suffix)
    with n(1) pos p q show "\<exists>N\<ge>1. ensureUniqueSlug docs s excludeID = Some (s @ ''-'' @ decimal N) \<and>
             \<not> slug_taken docs excludeID (toLowerCase s @ ''-'' @ decimal N) \<and>
             (\<forall>M. 1 \<le> M \<and> M < N \<longrightarrow>
                slug_taken docs excludeID (toLowerCase s @ ''-'' @ decimal M))"
      by (intro exI[of _ n]) simp
  qed
  have C: "title data = Some ''Hello World!'' \<and> \<not> truthy (slug data) \<and>
    insert [] i1 t1 data = Some (Inr (d1, c1)) \<and>
    insert c1 i2 t2 data = Some (Inr (d2, c2)) \<longrightarrow>
      slug d1 = Some ''hello-world'' \<and> slug d2 = Some ''hello-world-1''"
    using hello_twice[of data i1 t1 d1 c1 i2 t2 d2 c2] by blast
  have D: "toLowerCase s = s \<longrightarrow>
      (\<not> slug_taken docs excludeID s \<longrightarrow> ensureUniqueSlug docs s excludeID = Some s) \<and>
      (slug_taken docs excludeID s \<longrightarrow>
         (\<exists>N\<ge>1. ensureUniqueSlug docs s excludeID = Some (s @ ''-'' @ decimal N) \<and>
                \<not> slug_taken docs excludeID (s @ ''-'' @ decimal N) \<and>
                (\<forall>M. 1 \<le> M \<and> M < N \<longrightarrow> slug_taken docs excludeID (s @ ''-'' @ decimal M))))"
  proof
    assume l: "toLowerCase s = s"
    from A B show "(\<not> slug_taken docs excludeID s \<longrightarrow> ensureUniqueSlug docs s excludeID = Some s) \<and>
      (slug_taken docs excludeID s \<longrightarrow>
         (\<exists>N\<ge>1. ensureUniqueSlug docs s excludeID = Some (s @ ''-'' @ decimal N) \<and>
                \<not> slug_taken docs excludeID (s @ ''-'' @ decimal N) \<and>
                (\<forall>M. 1 \<le> M \<and> M < N \<longrightarrow> slug_taken docs excludeID (s @ ''-'' @ decimal M))))"
      unfolding l by (intro conjI)
  qed
  from A B D C show ?thesis by (intro conjI)
qed

theorem ensureUniqueSlug_lowest_free_witness:
  "\<not> slug_taken [] None (toLowerCase ''hello-world'') \<and>
   ensureUniqueSlug [] ''hello-world'' None = Some ''hello-world'' \<and>
   toLowerCase ''hello-world'' = ''hello-world'' \<and>
   slug_taken [stored_hello] None ''hello-world'' \<and>
   ensureUniqueSlug [stored_hello] ''hello-world'' None = Some ''hello-world-1'' \<and>
   ID stored_hello = Some ''id1'' \<and>
   \<not> slug_taken [stored_hello] (Some ''id1'') ''hello-world'' \<and>
   ensureUniqueSlug [stored_hello] ''hello-world'' (Some ''id1'') = Some ''hello-world'' \<and>
   slug_taken [stored_hello] (Some ''id2'') ''hello-world'' \<and>
   ensureUniqueSlug [stored_hello] ''hello-world'' (Some ''id2'') = Some ''hello-world-1'' \<and>
   slug_taken [stored_hello] None (toLowerCase ''Hello-World'') \<and>
   ensureUniqueSlug [stored_hello] ''Hello-World'' None = Some ''Hello-World-1'' \<and>
   title hello_world = Some ''Hello World!'' \<and> \<not> truthy (slug hello_world) \<and>
   insert [] ''id1'' 10 hello_world = Some (Inr (first_hello, [first_hello])) \<and>
   slug first_hello = Some ''hello-world'' \<and>
   (\<exists>d2 c2. insert [first_hello] ''id2'' 20 hello_world = Some (Inr (d2, c2)) \<and>
      slug d2 = Some ''hello-world-1'')"
proof -
  have free: "\<not> slug_taken [] None (toLowerCase ''hello-world'')" by (simp add: slug_taken_def)
  have taken: "slug_taken [stored_hello] ex ''hello-world''"
    if "ex = None \<or> ex = Some ''id2''" for ex
    using that by (auto simp: slug_taken_def stored_hello_slug stored_hello_ID)
  have taken_cap: "slug_taken [stored_hello] None (toLowerCase ''Hello-World'')"
    by (simp add: slug_taken_def stored_hello_slug lc_capitals)
  have excluded: "\<not> slug_taken [stored_hello] (Some ''id1'') ''hello-world''"
    by (simp add: slug_taken_def stored_hello_ID)
  have free1: "\<not> slug_taken [stored_hello] ex (toLowerCase b @ ''-'' @ decimal 1)"
    if "toLowerCase b = ''hello-world''" for ex b
    using that by (simp add: slug_taken_def stored_hello_slug dec1)
  have t: "title hello_world = Some ''Hello World!''" and ns: "\<not> truthy (slug hello_world)"
    by (simp_all add: hello_world_def truthy_def)
  have i1: "insert [] ''id1'' 10 hello_world = Some (Inr (first_hello, [first_hello]))"
    using insert_first[of "''id1''" 10] by (simp add: first_hello_def)
  obtain d2 c2 where i2: "insert [first_hello] ''id2'' 20 hello_world = Some (Inr (d2, c2))"
    using insert_second[of "''id1''" "''id2''" first_hello 10 20] by (auto simp: first_hello_def)
  note A = ensureUniqueSlug_lowest_free[of "[]" None "''hello-world''" hello_world
      "''id1''" 10 first_hello "[first_hello]" "''id2''" 20 d2 c2]
  note E = ensureUniqueSlug_lowest_free[of "[stored_hello]" "Some ''id1''" "''hello-world''"
      hello_world "''id1''" 10 first_hello "[first_hello]" "''id2''" 20 d2 c2]
  have once: "ensureUniqueSlug [stored_hello] b ex = Some (b @ ''-1'')"
    if tk: "slug_taken [stored_hello] ex (toLowerCase b)" and lb: "toLowerCase b = ''hello-world''"
    for b ex
  proof -
    note B = ensureUniqueSlug_lowest_free[of "[stored_hello]" ex b hello_world
      "''id1''" 10 first_hello "[first_hello]" "''id2''" 20 d2 c2]
    from B tk obtain N where N: "1 \<le> N"
      "ensureUniqueSlug [stored_hello] b ex = Some (b @ ''-'' @ decimal N)"
      "\<forall>M. 1 \<le> M \<and> M < N \<longrightarrow> slug_taken [stored_hello] ex (toLowerCase b @ ''-'' @ decimal M)"
      by blast
    have "N = 1"
    proof (rule ccontr)
      assume "N \<noteq> 1"
      with N(1) have "1 \<le> (1::nat) \<and> 1 < N" by simp
      with N(3) free1[OF lb, of ex] show False by blast
    qed
    with N(2) show ?thesis by (simp add: dec1)
  qed
  from A free have 1: "ensureUniqueSlug [] ''hello-world'' None = Some ''hello-world''" by blast
  from once[of None "''hello-world''"] taken[of None]
  have 2: "ensureUniqueSlug [stored_hello] ''hello-world'' None = Some ''hello-world-1''"
    by (simp add: lc_hw)
  from E excluded
  have 3: "ensureUniqueSlug [stored_hello] ''hello-world'' (Some ''id1'') = Some ''hello-world''"
    by (simp add: lc_hw)
  from once[of "Some ''id2''" "''hello-world''"] taken[of "Some ''id2''"]
  have 4: "ensureUniqueSlug [stored_hello] ''hello-world'' (Some ''id2'') = Some ''hello-world-1''"
    by (simp add: lc_hw)
  from once[OF taken_cap lc_capitals]
  have 5: "ensureUniqueSlug [stored_hello] ''Hello-World'' None = Some ''Hello-World-1''" by simp
  from A t ns i1 i2 have 6: "slug first_hello = Some ''hello-world'' \<and> slug d2 = Some ''hello-world-1''"
    by blast
  from free taken[of None] taken[of "Some ''id2''"] taken_cap excluded lc_hw
    stored_hello_ID 1 2 3 4 5 6 t ns i1 i2
  show ?thesis by blast
qed

text \<open>
  Claim C1 as stated fails: with one document of slug \<open>hello-world\<close>, no document has the
  slug \<open>Hello-World\<close>, yet \<open>ensureUniqueSlug\<close> of that base slug does not return it but
  \<open>Hello-World-1\<close>.
\<close>

theorem capital_base_slug_counterexample:
  "slug stored_hello = Some ''hello-world'' \<and>
   \<not> slug_taken [stored_hello] None ''Hello-World'' \<and>
   ensureUniqueSlug [stored_hello] ''Hello-World'' None = Some ''Hello-World-1''"
proof -
  have "ensureUniqueSlug [stored_hello] ''Hello-World'' None = Some (''Hello-World'' @ ''-1'')"
    by (rule ensure_taken_once) (simp_all add: lc_capitals slug_taken_def stored_hello_slug)
  then show ?thesis by (simp add: slug_taken_def stored_hello_slug)
qed

lemma save_invalid:
  "p \<in> set (validate_content d) \<Longrightarrow> content_save docs isNew now d = Inl (ValidationError (validate_content d))"
  by (cases "validate_content d") (auto simp: content_save_def)

lemma slug_path_fails: "slug d = Some [] \<Longrightarrow> ''slug'' \<in> set (validate_content d)"
  by (simp add: validate_content_def truthy_def)

text \<open>
  Claim C9. \<open>generateSlug\<close> of the non-empty title "!!!" is the empty string. For every
  non-empty title whose generated slug is empty and every data object without a slug of its
  own, on a collection in which no document has the empty slug, \<open>ensureUniqueSlug\<close> hands
  the empty slug on and \<open>insert\<close> fails with a validation error that names the path
  \<open>slug\<close>; nothing is stored.
\<close>

theorem empty_slug_insert_fails:
  "generateSlug ''!!!'' = [] \<and>
   (title data = Some t \<and> t \<noteq> [] \<and> generateSlug t = [] \<and> \<not> truthy (slug data) \<and>
    \<not> slug_taken docs None [] \<longrightarrow>
      ensureUniqueSlug docs (generateSlug t) None = Some [] \<and>
      (\<exists>paths. insert docs fresh now data = Some (Inl (ValidationError paths)) \<and>
               ''slug'' \<in> set paths))"
proof (intro conjI impI)
  show "generateSlug ''!!!'' = []" by code_simp
next
  assume a: "title data = Some t \<and> t \<noteq> [] \<and> generateSlug t = [] \<and> \<not> truthy (slug data) \<and>
    \<not> slug_taken docs None []"
  then show "ensureUniqueSlug docs (generateSlug t) None = Some []"
    by (simp add: ensure_free toLowerCase_def)
next
  assume a: "title data = Some t \<and> t \<noteq> [] \<and> generateSlug t = [] \<and> \<not> truthy (slug data) \<and>
    \<not> slug_taken docs None []"
  then have e: "ensureUniqueSlug docs [] None = Some []"
    by (simp add: ensure_free toLowerCase_def)
  define cd where "cd = data\<lparr>ctype := (case ctype data of None \<Rightarrow> Some Page | Some t \<Rightarrow> Some t),
                 status := (case status data of None \<Rightarrow> Some Draft | Some st \<Rightarrow> Some st)\<rparr>"
  from a have "insert docs fresh now data = Some (base_insert docs fresh now (cd\<lparr>slug := Some []\<rparr>))"
    by (auto simp: insert_def e cd_def truthy_def Let_def split: option.splits)
  then have i: "insert docs fresh now data =
      Some (content_save docs True now (new_content fresh (cd\<lparr>slug := Some []\<rparr>)))"
    by (simp add: base_insert_def)
  have "slug (new_content fresh (cd\<lparr>slug := Some []\<rparr>)) = Some []"
    by (simp add: new_content_def toLowerCase_def)
  then have p: "''slug'' \<in> set (validate_content (new_content fresh (cd\<lparr>slug := Some []\<rparr>)))"
    by (rule slug_path_fails)
  from i save_invalid[OF p] p have "insert docs fresh now data =
      Some (Inl (ValidationError (validate_content (new_content fresh (cd\<lparr>slug := Some []\<rparr>)))))"
    "''slug'' \<in> set (validate_content (new_content fresh (cd\<lparr>slug := Some []\<rparr>)))"
    by simp_all
  then show "\<exists>paths. insert docs fresh now data = Some (Inl (ValidationError paths)) \<and>
               ''slug'' \<in> set paths" by blast
qed

theorem empty_slug_insert_fails_witness:
  "generateSlug ''!!!'' = [] \<and>
   title bang_title = Some ''!!!'' \<and> \<not> truthy (slug bang_title) \<and> \<not> slug_taken [] None [] \<and>
   ensureUniqueSlug [] (generateSlug ''!!!'') None = Some [] \<and>
   (\<exists>paths. insert [] ''id1'' 0 bang_title = Some (Inl (ValidationError paths)) \<and>
               ''slug'' \<in> set paths)"
proof -
  have g: "generateSlug ''!!!'' = []" by code_simp
  have h: "title bang_title = Some ''!!!'' \<and> ''!!!'' \<noteq> [] \<and> generateSlug ''!!!'' = [] \<and>
      \<not> truthy (slug bang_title) \<and> \<not> slug_taken [] None []"
    by (simp add: g bang_title_def hello_world_def truthy_def slug_taken_def)
  from empty_slug_insert_fails[of bang_title "''!!!''" "[]" "''id1''" 0] h
  show ?thesis by blast
qed

section \<open>Publishing\<close>

lemma apply_set_publish:
  "apply_set (no_fields\<lparr>status := Some Published,
                  timestamps := (timestamps no_fields)\<lparr>published_at := Some now\<rparr>\<rparr>) d =
   d\<lparr>status := Some Published, timestamps := (timestamps d)\<lparr>published_at := Some now\<rparr>\<rparr>"
  by (simp add: apply_set_def no_fields_def or_else_def)

lemma publishContent_found:
  assumes "findById docs i = Some d"
  shows "publishContent docs i now =
     Some (Inr (d\<lparr>status := Some Published, timestamps := (timestamps d)\<lparr>published_at := Some now\<rparr>\<rparr>,
       replace_first (\<lambda>e. ID e = Some i)
         (d\<lparr>status := Some Published, timestamps := (timestamps d)\<lparr>published_at := Some now\<rparr>\<rparr>) docs))"
proof -
  let ?data = "no_fields\<lparr>status := Some Published,
                  timestamps := (timestamps no_fields)\<lparr>published_at := Some now\<rparr>\<rparr>"
  have u: "update docs i ?data = Some (base_update docs i ?data)"
    by (simp add: update_def no_fields_def)
  have s: "?data\<lparr>slug := map_option toLowerCase (slug ?data)\<rparr> = ?data"
    by (simp add: no_fields_def)
  have v: "validate_update ?data = []" by (simp add: validate_update_def no_fields_def)
  from assms have f: "findOne (\<lambda>d. ID d = Some i) docs = Some d" by (simp add: findById_def)
  have "base_update docs i ?data =
     Inr (d\<lparr>status := Some Published, timestamps := (timestamps d)\<lparr>published_at := Some now\<rparr>\<rparr>,
       replace_first (\<lambda>e. ID e = Some i)
         (d\<lparr>status := Some Published, timestamps := (timestamps d)\<lparr>published_at := Some now\<rparr>\<rparr>) docs)"
    unfolding base_update_def s Let_def v f apply_set_publish by simp
  with u show ?thesis by (simp add: publishContent_def)
qed

lemma publishContent_missing:
  assumes "findById docs i = None"
  shows "publishContent docs i now = Some (Inl DocumentNotFound)"
proof -
  let ?data = "no_fields\<lparr>status := Some Published,
                  timestamps := (timestamps no_fields)\<lparr>published_at := Some now\<rparr>\<rparr>"
  have u: "update docs i ?data = Some (base_update docs i ?data)"
    by (simp add: update_def no_fields_def)
  have s: "?data\<lparr>slug := map_option toLowerCase (slug ?data)\<rparr> = ?data"
    by (simp add: no_fields_def)
  have v: "validate_update ?data = []" by (simp add: validate_update_def no_fields_def)
  from assms have f: "findOne (\<lambda>d. ID d = Some i) docs = None" by (simp add: findById_def)
  have "base_update docs i ?data = Inl DocumentNotFound"
    unfolding base_update_def s Let_def v f by simp
  with u show ?thesis by (simp add: publishContent_def)
qed

lemma pre_save_published_at:
  "published_at (timestamps (content_pre_save isNew now d)) =
     (if status d = Some Published \<and> published_at (timestamps d) = None then Some now
      else published_at (timestamps d))"
  by (simp add: content_pre_save_def Let_def)

lemma pre_save_status: "status (content_pre_save isNew now d) = status d"
  by (simp add: content_pre_save_def Let_def)

lemma publish_method:
  assumes "publish docs now this = Inr (d', docs')"
  shows "status d' = Some Published \<and> published_at (timestamps d') = Some now"
proof -
  let ?t = "this\<lparr>status := Some Published,
             timestamps := (timestamps this)\<lparr>published_at := Some now\<rparr>\<rparr>"
  from assms have "d' = content_pre_save False now ?t"
    by (auto simp: publish_def content_save_def Let_def split: list.splits option.splits if_splits)
  then show ?thesis by (simp add: pre_save_published_at pre_save_status)
qed

text \<open>
  Claim C4, as amended. Publishing a stored document through the repository
  (\<open>publishContent\<close>) sets its status to published and sets \<open>published_at\<close> to the time
  of the call, whether or not a value was present, and changes nothing else; on an unknown
  identifier it fails. The schema's \<open>publish\<close> method, when it succeeds, leaves the same two
  values. Stamping only when unset is what the save hook does: it writes \<open>published_at\<close>
  exactly when the saved document is published and carries none.
\<close>

theorem publish_restamps:
  "(findById docs i = Some d \<longrightarrow>
      (\<exists>d' docs'. publishContent docs i now = Some (Inr (d', docs')) \<and>
         d' = d\<lparr>status := Some Published,
                 timestamps := (timestamps d)\<lparr>published_at := Some now\<rparr>\<rparr> \<and>
         docs' = replace_first (\<lambda>e. ID e = Some i) d' docs)) \<and>
   (findById docs i = None \<longrightarrow> publishContent docs i now = Some (Inl DocumentNotFound)) \<and>
   (publish docs now this = Inr (e', docs'') \<longrightarrow>
      status e' = Some Published \<and> published_at (timestamps e') = Some now) \<and>
   published_at (timestamps (content_pre_save isNew now d)) =
     (if status d = Some Published \<and> published_at (timestamps d) = None then Some now
      else published_at (timestamps d))"
  using publishContent_found[of docs i d now] publishContent_missing[of docs i now]
    publish_method[of docs now this e' docs''] pre_save_published_at[of isNew now d]
  by simp

lemma published_hello_id: "findById [published_hello] ''id1'' = Some published_hello"
  by (simp add: findById_def findOne_def published_hello_def stored_hello_def hello_world_def)

lemma republish_eval:
  "published_hello\<lparr>status := Some Published,
      timestamps := (timestamps published_hello)\<lparr>published_at := Some 9\<rparr>\<rparr> = republished_hello"
  by (simp add: republished_hello_def published_hello_def)

lemma replace_hello: "ID published_hello = Some ''id1''"
  by (simp add: published_hello_def stored_hello_def hello_world_def)

lemma publish_eval:
  "publish [published_hello] 9 published_hello = Inr (resaved_hello, [resaved_hello])"
  by (simp add: publish_def content_save_def validate_content_def truthy_def title_length_def
      sc_hw validate_author_def content_pre_save_def Let_def findOne_def
      resaved_hello_def republished_hello_def published_hello_def stored_hello_def hello_world_def)

theorem publish_restamps_witness:
  "findById [published_hello] ''id1'' = Some published_hello \<and>
   published_at (timestamps published_hello) = Some 5 \<and>
   publishContent [published_hello] ''id1'' 9 = Some (Inr (republished_hello, [republished_hello])) \<and>
   published_at (timestamps republished_hello) = Some 9 \<and>
   findById [] ''id1'' = None \<and> publishContent [] ''id1'' 9 = Some (Inl DocumentNotFound) \<and>
   publish [published_hello] 9 published_hello = Inr (resaved_hello, [resaved_hello]) \<and>
   status resaved_hello = Some Published \<and> published_at (timestamps resaved_hello) = Some 9 \<and>
   published_at (timestamps (content_pre_save False 9 published_hello)) = Some 5"
proof -
  note A = publish_restamps[of "[published_hello]" "''id1''" published_hello 9 published_hello
      resaved_hello "[resaved_hello]" False]
  note B = publish_restamps[of "[]" "''id1''" published_hello 9 published_hello
      resaved_hello "[resaved_hello]" False]
  have e: "findById [] ''id1'' = None" by (simp add: findById_def findOne_def)
  have p5: "published_at (timestamps published_hello) = Some 5" by (simp add: published_hello_def)
  have st: "status published_hello = Some Published" by (simp add: published_hello_def)
  from A published_hello_id
  have 1: "publishContent [published_hello] ''id1'' 9 = Some (Inr (republished_hello, [republished_hello]))"
    by (simp add: republish_eval replace_hello)
  from B e have 2: "publishContent [] ''id1'' 9 = Some (Inl DocumentNotFound)" by blast
  from A publish_eval
  have 3: "status resaved_hello = Some Published \<and> published_at (timestamps resaved_hello) = Some 9"
    by blast
  from A p5 st have 4: "published_at (timestamps (content_pre_save False 9 published_hello)) = Some 5"
    by simp
  have 5: "published_at (timestamps republished_hello) = Some 9" by (simp add: republished_hello_def)
  from published_hello_id p5 1 2 3 4 5 e publish_eval show ?thesis by simp
qed

text \<open>
  Claim C4 as stated fails: a document published at time 5 and published again at time 9
  carries 9 afterwards, through the repository and through the schema method alike, where
  the claim keeps 5.
\<close>

theorem publish_keeps_stamp_counterexample:
  "published_at (timestamps published_hello) = Some 5 \<and>
   publish_if_unset 9 published_hello = published_hello \<and>
   publishContent [published_hello] ''id1'' 9 = Some (Inr (republished_hello, [republished_hello])) \<and>
   publish [published_hello] 9 published_hello = Inr (resaved_hello, [resaved_hello]) \<and>
   published_at (timestamps republished_hello) = Some 9 \<and>
   published_at (timestamps resaved_hello) = Some 9"
proof -
  have "publishContent [published_hello] ''id1'' 9 = Some (Inr (republished_hello, [republished_hello]))"
    using publishContent_found[OF published_hello_id, of 9] by (simp add: republish_eval replace_hello)
  moreover have "publish_if_unset 9 published_hello = published_hello"
    by (simp add: publish_if_unset_def published_hello_def)
  moreover have "published_at (timestamps published_hello) = Some 5" by (simp add: published_hello_def)
  moreover have "published_at (timestamps republished_hello) = Some 9" by (simp add: republished_hello_def)
  moreover have "published_at (timestamps resaved_hello) = Some 9"
    by (simp add: resaved_hello_def republished_hello_def)
  ultimately show ?thesis using publish_eval by simp
qed

section \<open>Email verification\<close>

lemma verifyEmail_found:
  assumes "findOne (\<lambda>u. user_ID u = i) docs = Some u"
  shows "verifyEmail docs i now =
     Inr (u\<lparr>email_verified_at := Some now, email_verification_token := None,
             user_status := Active\<rparr>,
          replace_first (\<lambda>e. user_ID e = i)
            (u\<lparr>email_verified_at := Some now, email_verification_token := None,
                user_status := Active\<rparr>) docs)"
  using assms by (simp add: verifyEmail_def user_update_def or_else_def Let_def)

lemma methods_verifyEmail_status:
  "methods_verifyEmail now u =
     u\<lparr>email_verified_at := Some now, email_verification_token := None,
       user_status := (if user_status u = Pending then Active else user_status u)\<rparr>"
  by (simp add: methods_verifyEmail_def Let_def)

text \<open>
  Claim C7, on the code. The repository's \<open>verifyEmail\<close> clears the token and sets the
  verification time, and it sets the status to active for every stored user, whatever the
  status was; the schema method of the same name activates a pending user only and keeps
  every other status. The claim describes the schema method, not the repository operation
  it names.
\<close>

theorem verifyEmail_activates_every_status:
  "(findOne (\<lambda>u. user_ID u = i) docs = Some u \<longrightarrow>
      (\<exists>u' docs'. verifyEmail docs i now = Inr (u', docs') \<and>
         email_verification_token u' = None \<and> email_verified_at u' = Some now \<and>
         user_status u' = Active)) \<and>
   email_verification_token (methods_verifyEmail now u) = None \<and>
   email_verified_at (methods_verifyEmail now u) = Some now \<and>
   user_status (methods_verifyEmail now u) =
     (if user_status u = Pending then Active else user_status u)"
  using verifyEmail_found[of i docs u now] by (simp add: methods_verifyEmail_status)

theorem verifyEmail_activates_every_status_witness:
  "findOne (\<lambda>u. user_ID u = ''u1'') [suspended_user] = Some suspended_user \<and>
   user_status suspended_user = Suspended \<and>
   verifyEmail [suspended_user] ''u1'' 100 =
     Inr (suspended_user\<lparr>email_verified_at := Some 100, email_verification_token := None,
            user_status := Active\<rparr>,
          [suspended_user\<lparr>email_verified_at := Some 100, email_verification_token := None,
            user_status := Active\<rparr>]) \<and>
   user_status (methods_verifyEmail 100 suspended_user) = Suspended"
proof -
  have f: "findOne (\<lambda>u. user_ID u = ''u1'') [suspended_user] = Some suspended_user"
    by (simp add: findOne_def suspended_user_def)
  have s: "user_status suspended_user = Suspended" by (simp add: suspended_user_def)
  have v: "verifyEmail [suspended_user] ''u1'' 100 =
     Inr (suspended_user\<lparr>email_verified_at := Some 100, email_verification_token := None,
            user_status := Active\<rparr>,
          [suspended_user\<lparr>email_verified_at := Some 100, email_verification_token := None,
            user_status := Active\<rparr>])"
    by (simp add: verifyEmail_def user_update_def or_else_def findOne_def suspended_user_def Let_def)
  from verifyEmail_activates_every_status[of "''u1''" "[suspended_user]" suspended_user 100] s
  have "user_status (methods_verifyEmail 100 suspended_user) = Suspended" by simp
  with f s v show ?thesis by simp
qed

section \<open>Session expiry\<close>








section \<open>Setting values\<close>
























section \<open>Seeding the default settings\<close>





















section \<open>Reading settings by access level\<close>

lemma function_level:
  "accessLevel \<in> set object_prototype_members \<Longrightarrow> accessLevel \<noteq> ''__proto__'' \<Longrightarrow>
   levels accessLevel = Some (InheritedFunction (function_text accessLevel))"
  by (auto simp: levels_def object_prototype_members_def)

lemma prototype_level: "levels ''__proto__'' = Some InheritedObject"
  by (simp add: levels_def)

lemma function_text_no_level:
  "function_text member \<noteq> ''public'' \<and> function_text member \<noteq> ''admin'' \<and>
   function_text member \<noteq> ''super_admin''"
  by (simp add: function_text_def)

lemma function_rows:
  assumes "accessLevel \<in> set object_prototype_members" "accessLevel \<noteq> ''__proto__''"
  shows "getSettingsByAccessLevel docs accessLevel =
     Inr (sort_key (\<lambda>d. (category d, label d))
            (filter (\<lambda>d. access_level d = function_text accessLevel) docs))"
  by (simp add: getSettingsByAccessLevel_def function_level[OF assms] getlist_def)

lemma function_rows_empty:
  assumes "accessLevel \<in> set object_prototype_members" "accessLevel \<noteq> ''__proto__''"
    and "\<forall>d \<in> set docs. access_level d \<in> {''public'', ''admin'', ''super_admin''}"
  shows "getSettingsByAccessLevel docs accessLevel = Inr []"
proof -
  have "filter (\<lambda>d. access_level d = function_text accessLevel) docs = []"
    using assms(3) function_text_no_level[of accessLevel] by (auto simp: filter_empty_conv)
  then show ?thesis by (simp add: function_rows[OF assms(1,2)])
qed

lemma unknown_level:
  "accessLevel \<noteq> ''public'' \<Longrightarrow> accessLevel \<noteq> ''admin'' \<Longrightarrow> accessLevel \<noteq> ''super_admin'' \<Longrightarrow>
   accessLevel \<notin> set object_prototype_members \<Longrightarrow> levels accessLevel = None"
  by (auto simp: levels_def object_prototype_members_def)

lemma public_rows:
  "getSettingsByAccessLevel docs ''public'' =
     Inr (sort_key (\<lambda>d. (category d, label d)) (filter (\<lambda>d. access_level d = ''public'') docs))"
  by (simp add: getSettingsByAccessLevel_def levels_def getlist_def)

lemma admin_rows:
  "getSettingsByAccessLevel docs ''admin'' =
     Inr (sort_key (\<lambda>d. (category d, label d))
            (filter (\<lambda>d. access_level d = ''public'' \<or> access_level d = ''admin'') docs))"
  by (simp add: getSettingsByAccessLevel_def levels_def getlist_def)

lemma super_admin_rows:
  "getSettingsByAccessLevel docs ''super_admin'' =
     Inr (sort_key (\<lambda>d. (category d, label d))
            (filter (\<lambda>d. access_level d = ''public'' \<or> access_level d = ''admin'' \<or>
                         access_level d = ''super_admin'') docs))"
  by (simp add: getSettingsByAccessLevel_def levels_def getlist_def)

text \<open>
  Claim C6, on the code. For every state of the settings collection, \<open>public\<close> returns
  exactly the public settings, \<open>admin\<close> exactly the public and admin ones and never one at
  level super_admin, and \<open>super_admin\<close> those of all three levels, each sorted by category and
  label. A level argument that names no property of the \<open>levels\<close> object, own or
  inherited, returns what \<open>public\<close> returns. An argument that names a function-valued
  member of \<open>Object.prototype\<close>, such as \<open>constructor\<close>, does not fall back to
  \<open>public\<close>: it returns the settings whose level is the source text of that function,
  which is the empty list when every stored level is one of the three; the claim's last
  clause fails for it. The argument \<open>__proto__\<close> makes the call throw.
\<close>

theorem getSettingsByAccessLevel_levels:
  "getSettingsByAccessLevel docs ''public'' =
     Inr (sort_key (\<lambda>d. (category d, label d)) (filter (\<lambda>d. access_level d = ''public'') docs)) \<and>
   getSettingsByAccessLevel docs ''admin'' =
     Inr (sort_key (\<lambda>d. (category d, label d))
            (filter (\<lambda>d. access_level d = ''public'' \<or> access_level d = ''admin'') docs)) \<and>
   (\<forall>rows. getSettingsByAccessLevel docs ''admin'' = Inr rows \<longrightarrow>
      (\<forall>d \<in> set rows. access_level d \<noteq> ''super_admin'')) \<and>
   getSettingsByAccessLevel docs ''super_admin'' =
     Inr (sort_key (\<lambda>d. (category d, label d))
            (filter (\<lambda>d. access_level d = ''public'' \<or> access_level d = ''admin'' \<or>
                         access_level d = ''super_admin'') docs)) \<and>
   (accessLevel \<noteq> ''public'' \<and> accessLevel \<noteq> ''admin'' \<and> accessLevel \<noteq> ''super_admin'' \<and>
    accessLevel \<notin> set object_prototype_members \<longrightarrow>
      getSettingsByAccessLevel docs accessLevel = getSettingsByAccessLevel docs ''public'') \<and>
   (accessLevel \<in> set object_prototype_members \<and> accessLevel \<noteq> ''__proto__'' \<longrightarrow>
      getSettingsByAccessLevel docs accessLevel =
        Inr (sort_key (\<lambda>d. (category d, label d))
               (filter (\<lambda>d. access_level d = function_text accessLevel) docs))) \<and>
   (accessLevel \<in> set object_prototype_members \<and> accessLevel \<noteq> ''__proto__'' \<and>
    (\<forall>d \<in> set docs. access_level d \<in> {''public'', ''admin'', ''super_admin''}) \<longrightarrow>
      getSettingsByAccessLevel docs accessLevel = Inr []) \<and>
   getSettingsByAccessLevel docs ''__proto__'' = Inl CastError"
proof -
  have never: "\<forall>rows. getSettingsByAccessLevel docs ''admin'' = Inr rows \<longrightarrow>
      (\<forall>d \<in> set rows. access_level d \<noteq> ''super_admin'')"
    unfolding admin_rows by auto
  have fallback: "accessLevel \<noteq> ''public'' \<and> accessLevel \<noteq> ''admin'' \<and> accessLevel \<noteq> ''super_admin'' \<and>
    accessLevel \<notin> set object_prototype_members \<longrightarrow>
      getSettingsByAccessLevel docs accessLevel = getSettingsByAccessLevel docs ''public''"
  proof
    assume u: "accessLevel \<noteq> ''public'' \<and> accessLevel \<noteq> ''admin'' \<and> accessLevel \<noteq> ''super_admin'' \<and>
      accessLevel \<notin> set object_prototype_members"
    then have "levels accessLevel = None" by (simp add: unknown_level)
    then show "getSettingsByAccessLevel docs accessLevel = getSettingsByAccessLevel docs ''public''"
      by (simp add: getSettingsByAccessLevel_def) (simp add: levels_def)
  qed
  have fn: "accessLevel \<in> set object_prototype_members \<and> accessLevel \<noteq> ''__proto__'' \<longrightarrow>
      getSettingsByAccessLevel docs accessLevel =
        Inr (sort_key (\<lambda>d. (category d, label d))
               (filter (\<lambda>d. access_level d = function_text accessLevel) docs))"
    using function_rows[of accessLevel docs] by blast
  have empty: "accessLevel \<in> set object_prototype_members \<and> accessLevel \<noteq> ''__proto__'' \<and>
    (\<forall>d \<in> set docs. access_level d \<in> {''public'', ''admin'', ''super_admin''}) \<longrightarrow>
      getSettingsByAccessLevel docs accessLevel = Inr []"
    using function_rows_empty[of accessLevel docs] by blast
  have proto: "getSettingsByAccessLevel docs ''__proto__'' = Inl CastError"
    by (simp add: getSettingsByAccessLevel_def prototype_level)
  from public_rows admin_rows super_admin_rows never fallback fn empty proto
  show ?thesis by (intro conjI)
qed

lemma example_public:
  "sort_key (\<lambda>d. (category d, label d)) (filter (\<lambda>d. access_level d = ''public'') example_settings)
     = [site_name]"
  by (simp add: example_settings_def site_name_def theme_name_def default_smtp_settings_def)

lemma example_admin:
  "sort_key (\<lambda>d. (category d, label d))
     (filter (\<lambda>d. access_level d = ''public'' \<or> access_level d = ''admin'') example_settings)
     = [theme_name, site_name]"
  by code_simp

lemma example_levels:
  "\<forall>d \<in> set example_settings. access_level d \<in> {''public'', ''admin'', ''super_admin''}"
  by (simp add: example_settings_def site_name_def theme_name_def default_smtp_settings_def)

theorem getSettingsByAccessLevel_levels_witness:
  "getSettingsByAccessLevel example_settings ''constructor'' = Inr [] \<and>
   getSettingsByAccessLevel example_settings ''public'' = Inr [site_name] \<and>
   getSettingsByAccessLevel example_settings ''editor'' = Inr [site_name] \<and>
   getSettingsByAccessLevel example_settings ''admin'' = Inr [theme_name, site_name] \<and>
   access_level theme_name \<noteq> ''super_admin'' \<and> access_level site_name \<noteq> ''super_admin'' \<and>
   getSettingsByAccessLevel example_settings ''__proto__'' = Inl CastError"
proof -
  note A = getSettingsByAccessLevel_levels[of example_settings "''constructor''"]
  note B = getSettingsByAccessLevel_levels[of example_settings "''editor''"]
  have c: "''constructor'' \<in> set object_prototype_members \<and> ''constructor'' \<noteq> ''__proto__''"
    by (simp add: object_prototype_members_def)
  have e: "''editor'' \<noteq> ''public'' \<and> ''editor'' \<noteq> ''admin'' \<and> ''editor'' \<noteq> ''super_admin'' \<and>
    ''editor'' \<notin> set object_prototype_members"
    by (simp add: object_prototype_members_def)
  from A c example_levels
  have 1: "getSettingsByAccessLevel example_settings ''constructor'' = Inr []"
    by blast
  from A have 2: "getSettingsByAccessLevel example_settings ''public'' = Inr [site_name]"
    by (simp add: example_public)
  from B e 2 have 3: "getSettingsByAccessLevel example_settings ''editor'' = Inr [site_name]"
    by simp
  from A have 4: "getSettingsByAccessLevel example_settings ''admin'' = Inr [theme_name, site_name]"
    by (simp add: example_admin)
  with A have 5: "access_level theme_name \<noteq> ''super_admin'' \<and> access_level site_name \<noteq> ''super_admin''"
    by simp
  from A have 6: "getSettingsByAccessLevel example_settings ''__proto__'' = Inl CastError"
    by blast
  from 1 2 3 4 5 6 show ?thesis by (intro conjI) simp_all
qed

end
